theory Spec2Isabelle
  imports Main "HOL-Library.Word" "HOL-Library.Multiset"
begin

section \<open>The data-access layer of the journal backend (app/crud.py)\<close>

text \<open>
  The functions of \<^verbatim>\<open>app/crud.py\<close> that the properties below are about are
  embedded as HOL functions over an explicit model of the ORM session they are handed:
  \<open>create_user\<close>, \<open>get_journal_entry\<close>, \<open>get_user_journal_entries\<close>,
  \<open>update_journal_entry_with_ai\<close>, \<open>delete_journal_entry\<close>, \<open>get_mood_history\<close>,
  \<open>get_theme_frequency\<close>, \<open>create_article\<close>, \<open>get_article\<close>, \<open>delete_article\<close> and
  \<open>create_articles_bulk\<close>.

  \<^item> A table is the list of its rows, in the order in which the store returns them when a
    query gives no ordering.
  \<^item> A session holds the committed tables (\<open>store\<close>), the unit of work that has been
    registered and not yet flushed (\<open>pending\<close>), and the sequence of unit-of-work calls made
    on it so far (\<open>calls\<close>).
  \<^item> A query reads the committed tables and is total; it does not flush the unit of work.
    An offset or a limit that is negative goes to the store as it is, and what the store
    makes of it is an argument of the model.
  \<^item> \<open>commit\<close> flushes the pending statements in the order of their registration into a
    working copy of the tables. The store may reject any statement and may reject the commit
    itself; what it rejects, which identifiers it assigns and which defaults it fills in are
    not decided in this layer and are parameters of the model (\<open>store_env\<close>). So is
    whether the store fails the re-read of an article in the refresh loop of
    \<open>create_articles_bulk\<close>, which runs inside the \<^verbatim>\<open>try\<close> block of that function.
  \<^item> \<^verbatim>\<open>json.loads\<close> is an argument of the model: it may decode a text, raise
    \<^verbatim>\<open>JSONDecodeError\<close>, or raise another exception.
  \<^item> An exception is a value \<open>Inl e\<close>; a function that touches the session returns its
    result together with the session it leaves behind.
  \<^item> The clock is read by the caller of the model: \<open>now\<close> and \<open>utcnow\<close> are arguments.
\<close>

subsection \<open>Values\<close>

type_synonym uuid = "128 word"

text \<open>A float is only ever copied by this layer: it is kept as its 64 bits.\<close>
type_synonym pyfloat = "64 word"

text \<open>A \<^verbatim>\<open>datetime\<close> is the number of microseconds since 0001-01-01T00:00:00.\<close>
type_synonym datetime = int

datatype error = OverflowError | TypeError | RecursionError | ValueError | StoreError string

text \<open>
  An element of a list in a JSON column: a string, as the data model has the themes, or a
  value that cannot be hashed (a list or an object). Numbers, booleans and null as elements
  are left out: what becomes of them is decided by the schema of the result, which the
  source does not contain.
\<close>
datatype element = Str string | Unhashable

text \<open>
  The value of a JSON column as the driver hands it over: a list, a string, or anything else
  (object, number, boolean).
\<close>
datatype json_column = NativeList "element list" | TextValue string | OtherValue

record user =
  u_id :: "uuid option"
  u_email :: string
  u_hashed_password :: string
  u_first_name :: "string option"
  u_last_name :: "string option"

record journal_entry =
  je_id :: "int option"
  je_user_id :: uuid
  je_content :: string
  je_mood :: "string option"
  je_created_at :: datetime
  je_sentiment_score :: "pyfloat option"
  je_sentiment_label :: "string option"
  je_key_themes :: "json_column option"
  je_suggested_strategies :: "json_column option"
  je_ai_analysis_completed_at :: "datetime option"

record article =
  art_id :: "int option"
  art_user_id :: uuid
  art_title :: string
  art_body :: string
  art_triggering_mood :: string
  art_source_journal_entry_id :: "int option"
  art_generation_variation_key :: "string option"
  art_generated_at :: "datetime option"

subsection \<open>The session\<close>

record db =
  users :: "user list"
  journal_entries :: "journal_entry list"
  articles :: "article list"

datatype stmt =
    InsertUser user
  | InsertArticle article
  | UpdateEntry journal_entry
  | DeleteEntry journal_entry
  | DeleteArticle article

datatype call = Add | AddAll nat | Delete | Commit | Rollback | Refresh

record session =
  store :: db
  pending :: "stmt list"
  calls :: "call list"

text \<open>\<^verbatim>\<open>query.filter(...).first()\<close>: the first row that satisfies the filter, if any.\<close>
definition first :: "('a \<Rightarrow> bool) \<Rightarrow> 'a list \<Rightarrow> 'a option" where
  "first P rows = find P rows"

subsection \<open>Journal entries and articles: ownership-scoped lookup\<close>

definition get_journal_entry :: "session \<Rightarrow> int \<Rightarrow> uuid \<Rightarrow> journal_entry option" where
  "get_journal_entry s entry_id user_id =
     first (\<lambda>r. je_id r = Some entry_id \<and> je_user_id r = user_id)
       (journal_entries (store s))"

definition get_article :: "session \<Rightarrow> int \<Rightarrow> uuid \<Rightarrow> article option" where
  "get_article s article_id user_id =
     first (\<lambda>r. art_id r = Some article_id \<and> art_user_id r = user_id)
       (articles (store s))"

text \<open>
  \<^verbatim>\<open>.offset(skip).limit(limit)\<close> on the ordered rows. The layer hands both numbers to the
  store as they are. With neither negative the store returns the rows from position
  \<open>skip\<close> on, at most \<open>limit\<close> of them. What it does with a negative one differs from
  store to store (one raises, another takes a negative limit for no limit) and is the
  argument \<open>negative\<close>.
\<close>
definition offset_limit ::
  "(int \<Rightarrow> int \<Rightarrow> 'a list \<Rightarrow> error + 'a list) \<Rightarrow> int \<Rightarrow> int \<Rightarrow> 'a list
     \<Rightarrow> error + 'a list" where
  "offset_limit negative skip limit rows =
     (if 0 \<le> skip \<and> 0 \<le> limit then Inr (take (nat limit) (drop (nat skip) rows))
      else negative skip limit rows)"

text \<open>\<^verbatim>\<open>order_by\<close>: rows with equal keys are kept in table order.\<close>

definition order_by_desc :: "('a \<Rightarrow> int) \<Rightarrow> 'a list \<Rightarrow> 'a list" where
  "order_by_desc key rows = sort_key (\<lambda>r. - key r) rows"

definition order_by_asc :: "('a \<Rightarrow> int) \<Rightarrow> 'a list \<Rightarrow> 'a list" where
  "order_by_asc key rows = sort_key key rows"

definition get_user_journal_entries ::
  "(int \<Rightarrow> int \<Rightarrow> journal_entry list \<Rightarrow> error + journal_entry list)
     \<Rightarrow> session \<Rightarrow> uuid \<Rightarrow> int \<Rightarrow> int \<Rightarrow> error + journal_entry list" where
  "get_user_journal_entries negative s user_id skip limit =
     offset_limit negative skip limit
       (order_by_desc je_created_at
          (filter (\<lambda>r. je_user_id r = user_id) (journal_entries (store s))))"

subsection \<open>The unit of work\<close>

text \<open>
  What the store decides: whether it rejects a statement given the working tables
  (\<open>fault\<close>), whether it rejects the commit of the working tables (\<open>commit_fault\<close>),
  whether it fails the re-read of an article from the committed tables
  (\<open>refresh_fault\<close>), the identifiers it assigns and the default generation time of an
  article.
\<close>
record store_env =
  fault :: "db \<Rightarrow> stmt \<Rightarrow> error option"
  commit_fault :: "db \<Rightarrow> error option"
  refresh_fault :: "db \<Rightarrow> article \<Rightarrow> error option"
  new_user_id :: "db \<Rightarrow> uuid"
  new_article_id :: "db \<Rightarrow> int"
  default_generated_at :: datetime

definition populate_user :: "store_env \<Rightarrow> db \<Rightarrow> user \<Rightarrow> user" where
  "populate_user env d u =
     (case u_id u of None \<Rightarrow> u\<lparr>u_id := Some (new_user_id env d)\<rparr> | Some _ \<Rightarrow> u)"

definition populate_article :: "store_env \<Rightarrow> db \<Rightarrow> article \<Rightarrow> article" where
  "populate_article env d a =
     (let a1 = (case art_id a of None \<Rightarrow> a\<lparr>art_id := Some (new_article_id env d)\<rparr>
                | Some _ \<Rightarrow> a)
      in case art_generated_at a1 of
           None \<Rightarrow> a1\<lparr>art_generated_at := Some (default_generated_at env)\<rparr>
         | Some _ \<Rightarrow> a1)"

text \<open>
  One statement on the working tables: the tables afterwards and the statement with the
  object as the store has populated it. Updates and deletes address the row by its primary
  key.
\<close>
fun apply_stmt :: "store_env \<Rightarrow> db \<Rightarrow> stmt \<Rightarrow> db \<times> stmt" where
  "apply_stmt env d (InsertUser u) =
     (let u' = populate_user env d u in (d\<lparr>users := users d @ [u']\<rparr>, InsertUser u'))"
| "apply_stmt env d (InsertArticle a) =
     (let a' = populate_article env d a
      in (d\<lparr>articles := articles d @ [a']\<rparr>, InsertArticle a'))"
| "apply_stmt env d (UpdateEntry e) =
     (d\<lparr>journal_entries :=
          map (\<lambda>r. if je_id r = je_id e then e else r) (journal_entries d)\<rparr>,
      UpdateEntry e)"
| "apply_stmt env d (DeleteEntry e) =
     (d\<lparr>journal_entries := filter (\<lambda>r. je_id r \<noteq> je_id e) (journal_entries d)\<rparr>,
      DeleteEntry e)"
| "apply_stmt env d (DeleteArticle a) =
     (d\<lparr>articles := filter (\<lambda>r. art_id r \<noteq> art_id a) (articles d)\<rparr>,
      DeleteArticle a)"

definition exec_stmt :: "store_env \<Rightarrow> db \<Rightarrow> stmt \<Rightarrow> error + db \<times> stmt" where
  "exec_stmt env d st =
     (case fault env d st of Some e \<Rightarrow> Inl e | None \<Rightarrow> Inr (apply_stmt env d st))"

text \<open>The flush stops at the first statement the store rejects.\<close>
fun flush :: "store_env \<Rightarrow> db \<Rightarrow> stmt list \<Rightarrow> error + db \<times> stmt list" where
  "flush env d [] = Inr (d, [])"
| "flush env d (st # sts) =
     (case exec_stmt env d st of
        Inl e \<Rightarrow> Inl e
      | Inr (d1, st') \<Rightarrow>
          (case flush env d1 sts of
             Inl e \<Rightarrow> Inl e
           | Inr (d2, flushed) \<Rightarrow> Inr (d2, st' # flushed)))"

text \<open>
  \<^verbatim>\<open>db.commit()\<close>: flush, then commit. When either fails the transaction is rolled back
  (the working copy is dropped, the objects of the unit of work leave the session) and the
  exception is raised; otherwise the working tables become the committed tables. The result
  holds the flushed statements.
\<close>
definition commit :: "store_env \<Rightarrow> session \<Rightarrow> (error + stmt list) \<times> session" where
  "commit env s =
     (case flush env (store s) (pending s) of
        Inl e \<Rightarrow> (Inl e, s\<lparr>pending := [], calls := calls s @ [Commit]\<rparr>)
      | Inr (d, flushed) \<Rightarrow>
          (case commit_fault env d of
             Some e \<Rightarrow> (Inl e, s\<lparr>pending := [], calls := calls s @ [Commit]\<rparr>)
           | None \<Rightarrow>
               (Inr flushed, s\<lparr>store := d, pending := [], calls := calls s @ [Commit]\<rparr>)))"

definition rollback :: "session \<Rightarrow> session" where
  "rollback s = s\<lparr>pending := [], calls := calls s @ [Rollback]\<rparr>"

definition add :: "stmt \<Rightarrow> session \<Rightarrow> session" where
  "add st s = s\<lparr>pending := pending s @ [st], calls := calls s @ [Add]\<rparr>"

definition add_all :: "stmt list \<Rightarrow> session \<Rightarrow> session" where
  "add_all sts s = s\<lparr>pending := pending s @ sts, calls := calls s @ [AddAll (length sts)]\<rparr>"

definition delete :: "stmt \<Rightarrow> session \<Rightarrow> session" where
  "delete st s = s\<lparr>pending := pending s @ [st], calls := calls s @ [Delete]\<rparr>"

text \<open>An attribute assignment on a persistent object registers the object as dirty.\<close>
definition dirty :: "stmt \<Rightarrow> session \<Rightarrow> session" where
  "dirty st s = s\<lparr>pending := pending s @ [st]\<rparr>"

text \<open>
  \<^verbatim>\<open>db.refresh(obj)\<close> as a call on the session. In \<open>create_user\<close> and
  \<open>update_journal_entry_with_ai\<close>, where no handler surrounds it, the re-read is taken to
  succeed, as the queries are.
\<close>
definition refresh :: "session \<Rightarrow> session" where
  "refresh s = s\<lparr>calls := calls s @ [Refresh]\<rparr>"

text \<open>
  \<^verbatim>\<open>for obj in db_models: db.refresh(obj)\<close>: the re-reads in order, up to the first that
  the store fails; the exception of that one, if any.
\<close>
fun refresh_all :: "store_env \<Rightarrow> article list \<Rightarrow> session \<Rightarrow> error option \<times> session" where
  "refresh_all env [] s = (None, s)"
| "refresh_all env (obj # objs) s =
     (case refresh_fault env (store s) obj of
        Some e \<Rightarrow> (Some e, refresh s)
      | None \<Rightarrow> refresh_all env objs (refresh s))"

text \<open>The objects of the last \<open>n\<close> flushed statements, as the store has populated them.\<close>
definition own :: "nat \<Rightarrow> stmt list \<Rightarrow> stmt list" where
  "own n flushed = drop (length flushed - n) flushed"

fun flushed_users :: "stmt list \<Rightarrow> user list" where
  "flushed_users [] = []"
| "flushed_users (InsertUser u # sts) = u # flushed_users sts"
| "flushed_users (_ # sts) = flushed_users sts"

fun flushed_articles :: "stmt list \<Rightarrow> article list" where
  "flushed_articles [] = []"
| "flushed_articles (InsertArticle a # sts) = a # flushed_articles sts"
| "flushed_articles (_ # sts) = flushed_articles sts"

subsection \<open>Users\<close>

record user_create =
  uc_email :: string
  uc_password :: string
  uc_first_name :: "string option"
  uc_last_name :: "string option"

text \<open>
  \<^verbatim>\<open>db.refresh(obj)\<close> re-reads the row that the flush has just written: the object is,
  after it, what the last flushed statement holds.
\<close>
definition refresh_user :: "stmt list \<Rightarrow> user \<Rightarrow> user" where
  "refresh_user flushed u = (case flushed_users (own 1 flushed) of [u'] \<Rightarrow> u' | _ \<Rightarrow> u)"

text \<open>
  \<^verbatim>\<open>auth.get_password_hash\<close> is defined outside \<^verbatim>\<open>crud.py\<close>; it is the first
  argument.
\<close>
text \<open>\<^verbatim>\<open>models.User(...)\<close> from a \<^verbatim>\<open>UserCreate\<close> and the hash of its password.\<close>
definition new_user :: "user_create \<Rightarrow> string \<Rightarrow> user" where
  "new_user user hashed_password =
     \<lparr>u_id = None, u_email = uc_email user, u_hashed_password = hashed_password,
      u_first_name = uc_first_name user, u_last_name = uc_last_name user\<rparr>"

definition create_user ::
  "(string \<Rightarrow> string) \<Rightarrow> store_env \<Rightarrow> session \<Rightarrow> user_create
     \<Rightarrow> (error + user) \<times> session" where
  "create_user get_password_hash env s user =
     (let hashed_password = get_password_hash (uc_password user);
          db_user = new_user user hashed_password;
          s1 = add (InsertUser db_user) s
      in case commit env s1 of
           (Inl e, s2) \<Rightarrow> (Inl e, s2)
         | (Inr flushed, s2) \<Rightarrow> (Inr (refresh_user flushed db_user), refresh s2))"

subsection \<open>Journal entries: update and delete\<close>

record ai_analysis_result =
  ai_sentiment_score :: "pyfloat option"
  ai_sentiment_label :: "string option"
  ai_key_themes :: "json_column option"
  ai_suggested_strategies :: "json_column option"

definition update_journal_entry_with_ai ::
  "store_env \<Rightarrow> datetime \<Rightarrow> session \<Rightarrow> int \<Rightarrow> uuid \<Rightarrow> ai_analysis_result
     \<Rightarrow> (error + journal_entry option) \<times> session" where
  "update_journal_entry_with_ai env now s entry_id user_id ai_results =
     (case get_journal_entry s entry_id user_id of
        None \<Rightarrow> (Inr None, s)
      | Some db_entry \<Rightarrow>
          (let db_entry' = db_entry
                 \<lparr>je_sentiment_score := ai_sentiment_score ai_results,
                  je_sentiment_label := ai_sentiment_label ai_results,
                  je_key_themes := ai_key_themes ai_results,
                  je_suggested_strategies := ai_suggested_strategies ai_results,
                  je_ai_analysis_completed_at := Some now\<rparr>;
               s1 = dirty (UpdateEntry db_entry') s
           in case commit env s1 of
                (Inl e, s2) \<Rightarrow> (Inl e, s2)
              | (Inr flushed, s2) \<Rightarrow> (Inr (Some db_entry'), refresh s2)))"

definition delete_journal_entry ::
  "store_env \<Rightarrow> session \<Rightarrow> int \<Rightarrow> uuid \<Rightarrow> (error + journal_entry option) \<times> session" where
  "delete_journal_entry env s entry_id user_id =
     (case get_journal_entry s entry_id user_id of
        Some db_entry \<Rightarrow>
          (case commit env (delete (DeleteEntry db_entry) s) of
             (Inl e, s2) \<Rightarrow> (Inl e, s2)
           | (Inr flushed, s2) \<Rightarrow> (Inr (Some db_entry), s2))
      | None \<Rightarrow> (Inr None, s))"

subsection \<open>Insights\<close>

definition us_per_day :: int where
  "us_per_day = 86400000000"

text \<open>One past 9999-12-31T23:59:59.999999, the last \<^verbatim>\<open>datetime\<close>.\<close>
definition datetime_end :: int where
  "datetime_end = 3652059 * us_per_day"

text \<open>\<^verbatim>\<open>timedelta(days=days)\<close> raises beyond 999999999 days.\<close>
definition timedelta_days :: "int \<Rightarrow> error + int" where
  "timedelta_days days =
     (if \<bar>days\<bar> > 999999999 then Inl OverflowError else Inr (days * us_per_day))"

text \<open>\<^verbatim>\<open>datetime - timedelta\<close> raises when the result is not a \<^verbatim>\<open>datetime\<close>.\<close>
definition datetime_sub :: "datetime \<Rightarrow> int \<Rightarrow> error + datetime" where
  "datetime_sub t delta =
     (let r = t - delta
      in if 0 \<le> r \<and> r < datetime_end then Inr r else Inl OverflowError)"

definition start_date :: "datetime \<Rightarrow> int \<Rightarrow> error + datetime" where
  "start_date now days =
     (case timedelta_days days of
        Inl e \<Rightarrow> Inl e
      | Inr delta \<Rightarrow> datetime_sub now delta)"

record mood_point =
  mp_date :: datetime
  mp_mood :: "string option"

definition get_mood_history ::
  "datetime \<Rightarrow> session \<Rightarrow> uuid \<Rightarrow> int \<Rightarrow> error + mood_point list" where
  "get_mood_history now s user_id days =
     (case start_date now days of
        Inl e \<Rightarrow> Inl e
      | Inr start \<Rightarrow>
          (let results =
                 map (\<lambda>r. (je_created_at r, je_mood r))
                   (order_by_asc je_created_at
                      (filter (\<lambda>r. je_user_id r = user_id \<and> je_created_at r \<ge> start
                                   \<and> je_mood r \<noteq> None)
                         (journal_entries (store s))))
           in Inr (map (\<lambda>r. \<lparr>mp_date = fst r, mp_mood = snd r\<rparr>) results)))"

text \<open>
  A \<^verbatim>\<open>Counter\<close>: the keys in the order of their first insertion, each with its count.
\<close>
type_synonym counter = "(string \<times> nat) list"

fun counter_incr :: "string \<Rightarrow> counter \<Rightarrow> counter" where
  "counter_incr x [] = [(x, 1)]"
| "counter_incr x ((k, c) # kcs) =
     (if k = x then (k, Suc c) # kcs else (k, c) # counter_incr x kcs)"

text \<open>
  \<^verbatim>\<open>theme_counts.update(xs)\<close> counts the elements one after the other and raises
  \<^verbatim>\<open>TypeError\<close> at the first that cannot be hashed.
\<close>
fun counter_update :: "counter \<Rightarrow> element list \<Rightarrow> error + counter" where
  "counter_update tc [] = Inr tc"
| "counter_update tc (Str x # xs) = counter_update (counter_incr x tc) xs"
| "counter_update tc (Unhashable # xs) = Inl TypeError"

text \<open>
  \<^verbatim>\<open>most_common(n)\<close>: the \<open>n\<close> entries of the highest count, highest first; entries of
  equal count in the order of their first insertion.
\<close>
definition most_common :: "nat \<Rightarrow> counter \<Rightarrow> (string \<times> nat) list" where
  "most_common n tc = take n (sort_key (\<lambda>kc. - int (snd kc)) tc)"

text \<open>
  What \<^verbatim>\<open>json.loads\<close> makes of a text: it raises \<^verbatim>\<open>JSONDecodeError\<close>, it raises
  another exception (\<^verbatim>\<open>RecursionError\<close> on brackets nested too deep, for one), or it
  returns a list or a value that is not a list. The decoder is an argument of the model.
\<close>
datatype decoded = JSONDecodeError | Raised error | DecodedList "element list" | DecodedOther

definition warning :: "string \<Rightarrow> string" where
  "warning theme_list = ''Warning: Could not parse key_themes JSON string: '' @ theme_list"

text \<open>
  The body of the loop over the selected column values, from the counter and the lines
  printed so far: the counter or the exception that leaves the loop, and the lines printed.
  Only \<^verbatim>\<open>JSONDecodeError\<close> is caught.
\<close>
fun tally :: "(string \<Rightarrow> decoded) \<Rightarrow> counter \<times> string list \<Rightarrow> json_column
                \<Rightarrow> (error + counter) \<times> string list" where
  "tally loads (tc, out) (NativeList xs) = (counter_update tc xs, out)"
| "tally loads (tc, out) (TextValue t) =
     (case loads t of
        DecodedList xs \<Rightarrow> (counter_update tc xs, out)
      | DecodedOther \<Rightarrow> (Inr tc, out)
      | JSONDecodeError \<Rightarrow> (Inr tc, out @ [warning t])
      | Raised e \<Rightarrow> (Inl e, out))"
| "tally loads (tc, out) OtherValue = (Inr tc, out)"

text \<open>\<^verbatim>\<open>for theme_list in results\<close>: the loop stops at the first exception.\<close>
fun scan :: "(string \<Rightarrow> decoded) \<Rightarrow> counter \<times> string list \<Rightarrow> json_column list
               \<Rightarrow> (error + counter) \<times> string list" where
  "scan loads (tc, out) [] = (Inr tc, out)"
| "scan loads (tc, out) (c # cs) =
     (case tally loads (tc, out) c of
        (Inl e, out') \<Rightarrow> (Inl e, out')
      | (Inr tc', out') \<Rightarrow> scan loads (tc', out') cs)"

record theme_cloud_item =
  tci_theme :: string
  tci_count :: nat

text \<open>The non-null \<^verbatim>\<open>key_themes\<close> of the user's entries from \<open>start\<close> on, in table order.\<close>
definition select_key_themes :: "session \<Rightarrow> uuid \<Rightarrow> datetime \<Rightarrow> json_column list" where
  "select_key_themes s user_id start =
     List.map_filter je_key_themes
       (filter (\<lambda>r. je_user_id r = user_id \<and> je_created_at r \<ge> start
                    \<and> je_key_themes r \<noteq> None)
          (journal_entries (store s)))"

definition get_theme_frequency ::
  "(string \<Rightarrow> decoded) \<Rightarrow> datetime \<Rightarrow> session \<Rightarrow> uuid \<Rightarrow> int
     \<Rightarrow> (error + theme_cloud_item list) \<times> string list" where
  "get_theme_frequency loads now s user_id days =
     (case start_date now days of
        Inl e \<Rightarrow> (Inl e, [])
      | Inr start \<Rightarrow>
          (let results = select_key_themes s user_id start
           in case scan loads ([], []) results of
                (Inl e, out) \<Rightarrow> (Inl e, out)
              | (Inr theme_counts, out) \<Rightarrow>
                  (let top_themes = most_common 50 theme_counts
                   in (Inr (map (\<lambda>(theme, count). \<lparr>tci_theme = theme, tci_count = count\<rparr>)
                              top_themes),
                       out))))"

subsection \<open>Articles\<close>

record article_create =
  ac_user_id :: uuid
  ac_title :: string
  ac_body :: string
  ac_triggering_mood :: string
  ac_source_journal_entry_id :: "int option"
  ac_generation_variation_key :: "string option"

text \<open>\<^verbatim>\<open>models.Article(...)\<close> from the fields of an \<^verbatim>\<open>ArticleCreate\<close>.\<close>
definition new_article :: "article_create \<Rightarrow> datetime option \<Rightarrow> article" where
  "new_article a generated_at =
     \<lparr>art_id = None, art_user_id = ac_user_id a, art_title = ac_title a,
      art_body = ac_body a, art_triggering_mood = ac_triggering_mood a,
      art_source_journal_entry_id = ac_source_journal_entry_id a,
      art_generation_variation_key = ac_generation_variation_key a,
      art_generated_at = generated_at\<rparr>"

definition create_article :: "session \<Rightarrow> article_create \<Rightarrow> article \<times> session" where
  "create_article s article_in =
     (let db_article = new_article article_in None
      in (db_article, add (InsertArticle db_article) s))"

definition delete_article ::
  "store_env \<Rightarrow> session \<Rightarrow> int \<Rightarrow> uuid \<Rightarrow> (error + article option) \<times> session" where
  "delete_article env s article_id user_id =
     (case get_article s article_id user_id of
        Some db_article \<Rightarrow>
          (case commit env (delete (DeleteArticle db_article) s) of
             (Inl e, s2) \<Rightarrow> (Inl e, s2)
           | (Inr flushed, s2) \<Rightarrow> (Inr (Some db_article), s2))
      | None \<Rightarrow> (Inr None, s))"

definition create_articles_bulk ::
  "store_env \<Rightarrow> datetime \<Rightarrow> session \<Rightarrow> article_create list
     \<Rightarrow> (error + article list) \<times> session" where
  "create_articles_bulk env utcnow s articles_to_create =
     (if articles_to_create = [] then (Inr [], s)
      else
        (let now = utcnow;
             db_models = map (\<lambda>a. new_article a (Some now)) articles_to_create;
             s1 = add_all (map InsertArticle db_models) s
         in case commit env s1 of
              (Inr flushed, s2) \<Rightarrow>
                (let rows = flushed_articles (own (length db_models) flushed)
                 in case refresh_all env rows s2 of
                      (None, s3) \<Rightarrow> (Inr rows, s3)
                    | (Some e, s3) \<Rightarrow> (Inl e, rollback s3))
            | (Inl e, s2) \<Rightarrow> (Inl e, rollback s2)))"


subsection \<open>Sample data for the worked examples\<close>

definition alice :: uuid where "alice = 1"
definition bob :: uuid where "bob = 2"

definition day :: "int \<Rightarrow> datetime" where
  "day n = n * us_per_day"

definition entry ::
  "int \<Rightarrow> uuid \<Rightarrow> datetime \<Rightarrow> string option \<Rightarrow> json_column option \<Rightarrow> journal_entry" where
  "entry i u t m k =
     \<lparr>je_id = Some i, je_user_id = u, je_content = ''today'', je_mood = m, je_created_at = t,
      je_sentiment_score = None, je_sentiment_label = None, je_key_themes = k,
      je_suggested_strategies = None, je_ai_analysis_completed_at = None\<rparr>"

definition item :: "uuid \<Rightarrow> string \<Rightarrow> article_create" where
  "item u t =
     \<lparr>ac_user_id = u, ac_title = t, ac_body = ''body'', ac_triggering_mood = ''low'',
      ac_source_journal_entry_id = None, ac_generation_variation_key = None\<rparr>"

definition stamped :: "int \<Rightarrow> uuid \<Rightarrow> string \<Rightarrow> datetime \<Rightarrow> article" where
  "stamped i u t now = (new_article (item u t) (Some now))\<lparr>art_id := Some i\<rparr>"

definition member :: "uuid \<Rightarrow> string \<Rightarrow> user" where
  "member u mail =
     \<lparr>u_id = Some u, u_email = mail, u_hashed_password = ''#'', u_first_name = None,
      u_last_name = None\<rparr>"

definition session_of :: "journal_entry list \<Rightarrow> article list \<Rightarrow> session" where
  "session_of es as =
     \<lparr>store = \<lparr>users = [member alice ''a@x.org'', member bob ''b@x.org''],
                journal_entries = es, articles = as\<rparr>,
      pending = [], calls = []\<rparr>"

definition analysis :: ai_analysis_result where
  "analysis = \<lparr>ai_sentiment_score = Some 7, ai_sentiment_label = Some ''positive'',
      ai_key_themes = Some (NativeList [Str ''sleep'']),
      ai_suggested_strategies = Some (NativeList [Str ''walk''])\<rparr>"

text \<open>A store that accepts every statement and every commit and fails no re-read.\<close>
definition lenient :: store_env where
  "lenient = \<lparr>fault = (\<lambda>d st. None), commit_fault = (\<lambda>d. None),
      refresh_fault = (\<lambda>d a. None),
      new_user_id = (\<lambda>d. 100 + of_nat (length (users d))),
      new_article_id = (\<lambda>d. 100 + int (length (articles d))),
      default_generated_at = 0\<rparr>"

text \<open>
  Modelled from the spec: the declarations of the tables (\<^verbatim>\<open>app/models.py\<close>) are not
  part of the source. The spec has the email of a user unique and every article belonging to
  exactly one user; a store with these two constraints rejects the insert of a user whose
  email is taken and of an article whose user does not exist.
\<close>
definition constraint_fault :: "db \<Rightarrow> stmt \<Rightarrow> error option" where
  "constraint_fault d st =
     (case st of
        InsertUser u \<Rightarrow>
          (if u_email u \<in> set (map u_email (users d))
           then Some (StoreError ''duplicate key: users.email'') else None)
      | InsertArticle a \<Rightarrow>
          (if Some (art_user_id a) \<in> set (map u_id (users d)) then None
           else Some (StoreError ''foreign key: articles.user_id''))
      | _ \<Rightarrow> None)"

definition constrained :: store_env where
  "constrained = lenient\<lparr>fault := constraint_fault\<rparr>"

definition two_owners :: session where
  "two_owners = session_of
     [entry 1 alice (day 3) (Some ''low'') None, entry 2 bob (day 4) (Some ''calm'') None]
     [stamped 1 alice ''one'' 0, stamped 2 bob ''two'' 0]"



text \<open>A stand-in for the password hash, which the source does not contain.\<close>
definition toy_hash :: "string \<Rightarrow> string" where
  "toy_hash p = CHR ''$'' # rev p"

definition signup :: "string \<Rightarrow> user_create" where
  "signup mail =
     \<lparr>uc_email = mail, uc_password = ''secret'', uc_first_name = Some ''Cy'',
      uc_last_name = None\<rparr>"

text \<open>A store that accepts every statement and then fails every commit.\<close>
definition failing_commit :: store_env where
  "failing_commit = lenient\<lparr>commit_fault := (\<lambda>d. Some (StoreError ''connection lost''))\<rparr>"

definition analysed :: "journal_entry \<Rightarrow> datetime \<Rightarrow> journal_entry" where
  "analysed e t =
     e\<lparr>je_sentiment_score := Some 7, je_sentiment_label := Some ''positive'',
       je_key_themes := Some (NativeList [Str ''sleep'']),
       je_suggested_strategies := Some (NativeList [Str ''walk'']),
       je_ai_analysis_completed_at := Some t\<rparr>"


text \<open>
  A store that raises on a negative offset or limit, and the reading of SQLite: a negative
  limit is no limit, a negative offset is the offset 0.
\<close>
definition rejecting_negative :: "int \<Rightarrow> int \<Rightarrow> 'a list \<Rightarrow> error + 'a list" where
  "rejecting_negative skip limit rows = Inl (StoreError ''negative OFFSET or LIMIT'')"

definition sqlite_negative :: "int \<Rightarrow> int \<Rightarrow> 'a list \<Rightarrow> error + 'a list" where
  "sqlite_negative skip limit rows =
     (let rest = drop (nat (max 0 skip)) rows
      in Inr (if limit < 0 then rest else take (nat limit) rest))"

subsection \<open>The scan of the key themes, in the words of the specification\<close>


text \<open>The counter after counting a list of strings.\<close>
definition counted :: "counter \<Rightarrow> string list \<Rightarrow> counter" where
  "counted tc xs = foldl (\<lambda>c x. counter_incr x c) tc xs"

text \<open>The strings among the elements of a list.\<close>
fun strings :: "element list \<Rightarrow> string list" where
  "strings [] = []"
| "strings (Str x # xs) = x # strings xs"
| "strings (Unhashable # xs) = strings xs"

text \<open>
  The exception that one column value raises in the loop, if it raises one: that of the
  decoder when it is not \<^verbatim>\<open>JSONDecodeError\<close>, or \<^verbatim>\<open>TypeError\<close> for a list with an
  element that cannot be hashed.
\<close>
fun raised :: "(string \<Rightarrow> decoded) \<Rightarrow> json_column \<Rightarrow> error option" where
  "raised loads (NativeList xs) = (if Unhashable \<in> set xs then Some TypeError else None)"
| "raised loads (TextValue t) =
     (case loads t of
        Raised e \<Rightarrow> Some e
      | DecodedList xs \<Rightarrow> (if Unhashable \<in> set xs then Some TypeError else None)
      | _ \<Rightarrow> None)"
| "raised loads OtherValue = None"

text \<open>
  What the scan takes from one column value: the strings of the list itself or of the list
  a text decodes to, nothing otherwise; and the text it warns about, when the value is a
  text on which the decoder raises \<^verbatim>\<open>JSONDecodeError\<close>.
\<close>
fun accepted :: "(string \<Rightarrow> decoded) \<Rightarrow> json_column \<Rightarrow> string list" where
  "accepted loads (NativeList xs) = strings xs"
| "accepted loads (TextValue t) = (case loads t of DecodedList xs \<Rightarrow> strings xs | _ \<Rightarrow> [])"
| "accepted loads OtherValue = []"

fun malformed :: "(string \<Rightarrow> decoded) \<Rightarrow> json_column \<Rightarrow> string list" where
  "malformed loads (TextValue t) = (case loads t of JSONDecodeError \<Rightarrow> [t] | _ \<Rightarrow> [])"
| "malformed loads _ = []"


definition malformed_texts :: "(string \<Rightarrow> decoded) \<Rightarrow> json_column list \<Rightarrow> string list" where
  "malformed_texts loads cols = concat (map (malformed loads) cols)"

text \<open>A text that decodes to a value that is not a list.\<close>
definition non_list_text :: "(string \<Rightarrow> decoded) \<Rightarrow> json_column \<Rightarrow> bool" where
  "non_list_text loads c = (case c of TextValue t \<Rightarrow> loads t = DecodedOther | _ \<Rightarrow> False)"

text \<open>The session without the entries whose key themes are such a text.\<close>
definition without_non_list_texts :: "(string \<Rightarrow> decoded) \<Rightarrow> session \<Rightarrow> session" where
  "without_non_list_texts loads s =
     s\<lparr>store := (store s)\<lparr>journal_entries :=
          filter (\<lambda>r. case je_key_themes r of None \<Rightarrow> True | Some c \<Rightarrow> \<not> non_list_text loads c)
            (journal_entries (store s))\<rparr>\<rparr>"

subsection \<open>Sample data for the insights\<close>

text \<open>The double quote, and a word between double quotes.\<close>

definition dq :: char where "dq = CHR 0x22"

definition quoted :: "string \<Rightarrow> string" where
  "quoted w = dq # w @ [dq]"

text \<open>The JSON text of the list of the one theme \<open>a\<close>.\<close>

definition list_a_text :: string where
  "list_a_text = ''['' @ quoted ''a'' @ '']''"

text \<open>A thousand opening brackets: \<^verbatim>\<open>json.loads\<close> raises \<^verbatim>\<open>RecursionError\<close> on it.\<close>
definition deep_text :: string where
  "deep_text = replicate 1000 CHR ''[''"

text \<open>
  A decoder for the examples, which does on their texts what \<^verbatim>\<open>json.loads\<close> does: it
  raises \<^verbatim>\<open>RecursionError\<close> on the thousand brackets, decodes the text of the list of
  \<open>a\<close> to that list and the texts of the empty object and of the number 5 to a value
  that is not a list, and raises \<^verbatim>\<open>JSONDecodeError\<close> on the other texts of the examples.
\<close>
definition sample_loads :: "string \<Rightarrow> decoded" where
  "sample_loads t =
     (if t = deep_text then Raised RecursionError
      else if t = list_a_text then DecodedList [Str ''a'']
      else if t = ''{}'' \<or> t = ''5'' then DecodedOther
      else JSONDecodeError)"

definition themed :: session where
  "themed = session_of
     [entry 1 alice (day 5) None (Some (NativeList [Str ''a'', Str ''b''])),
      entry 2 alice (day 6) None (Some (TextValue list_a_text)),
      entry 3 alice (day 7) None (Some (TextValue ''{oops'')),
      entry 4 alice (day 8) None (Some (TextValue ''{}'')),
      entry 5 bob (day 6) None (Some (NativeList [Str ''z''])),
      entry 6 alice (day 1) None (Some (NativeList [Str ''old''])),
      entry 7 alice (day 6) None None]
     []"

text \<open>The session \<open>themed\<close> without entry 4, whose key themes are the text of an object.\<close>
definition themed_lists_only :: session where
  "themed_lists_only = session_of
     [entry 1 alice (day 5) None (Some (NativeList [Str ''a'', Str ''b''])),
      entry 2 alice (day 6) None (Some (TextValue list_a_text)),
      entry 3 alice (day 7) None (Some (TextValue ''{oops'')),
      entry 5 bob (day 6) None (Some (NativeList [Str ''z''])),
      entry 6 alice (day 1) None (Some (NativeList [Str ''old''])),
      entry 7 alice (day 6) None None]
     []"

text \<open>
  Alice's diary, with an entry of Bob in between: one entry a day too old for a window of
  seven days before day 10, one on its first day, one without a mood, and one dated after
  day 10.
\<close>
definition diary :: session where
  "diary = session_of
     [entry 1 alice (day 2) (Some ''low'') None,
      entry 2 alice (day 3) (Some ''calm'') None,
      entry 3 bob (day 5) (Some ''glad'') None,
      entry 4 alice (day 6) None None,
      entry 5 alice (day 8) (Some ''glad'') None,
      entry 6 alice (day 12) (Some ''calm'') None]
     []"



section \<open>Properties\<close>

subsection \<open>Queries and the unit of work\<close>

lemma first_None_iff: "first P rows = None \<longleftrightarrow> (\<forall>r\<in>set rows. \<not> P r)"
  by (auto simp: first_def find_None_iff)

lemma first_SomeD: "first P rows = Some r \<Longrightarrow> P r \<and> r \<in> set rows"
  by (auto simp: first_def find_Some_iff)

lemma pk_unique:
  assumes "distinct (map key rows)" "r \<in> set rows" "r' \<in> set rows" "key r' = key r"
  shows "r' = r"
  using assms by (meson distinct_map inj_onD)

lemma get_journal_entry_SomeD:
  "get_journal_entry s entry_id u = Some e \<Longrightarrow>
     je_id e = Some entry_id \<and> je_user_id e = u \<and> e \<in> set (journal_entries (store s))"
  unfolding get_journal_entry_def by (drule first_SomeD) simp

lemma get_article_SomeD:
  "get_article s article_id u = Some x \<Longrightarrow>
     art_id x = Some article_id \<and> art_user_id x = u \<and> x \<in> set (articles (store s))"
  unfolding get_article_def by (drule first_SomeD) simp

lemma get_journal_entry_not_owned:
  assumes "a \<noteq> b" "r \<in> set (journal_entries (store s))" "je_id r = Some entry_id"
    "je_user_id r = b" "distinct (map je_id (journal_entries (store s)))"
  shows "get_journal_entry s entry_id a = None"
proof -
  have "\<not> (je_id r' = Some entry_id \<and> je_user_id r' = a)"
    if "r' \<in> set (journal_entries (store s))" for r'
  proof
    assume h: "je_id r' = Some entry_id \<and> je_user_id r' = a"
    then have "r' = r" using pk_unique [OF assms(5) assms(2) that] assms(3) by simp
    with h assms show False by simp
  qed
  then show ?thesis by (simp add: get_journal_entry_def first_None_iff)
qed

lemma get_article_not_owned:
  assumes "a \<noteq> b" "x \<in> set (articles (store s))" "art_id x = Some article_id"
    "art_user_id x = b" "distinct (map art_id (articles (store s)))"
  shows "get_article s article_id a = None"
proof -
  have "\<not> (art_id x' = Some article_id \<and> art_user_id x' = a)"
    if "x' \<in> set (articles (store s))" for x'
  proof
    assume h: "art_id x' = Some article_id \<and> art_user_id x' = a"
    then have "x' = x" using pk_unique [OF assms(5) assms(2) that] assms(3) by simp
    with h assms show False by simp
  qed
  then show ?thesis by (simp add: get_article_def first_None_iff)
qed

lemma flush_append:
  "flush env d (xs @ ys) =
     (case flush env d xs of
        Inl e \<Rightarrow> Inl e
      | Inr (d1, fl1) \<Rightarrow>
          (case flush env d1 ys of
             Inl e \<Rightarrow> Inl e
           | Inr (d2, fl2) \<Rightarrow> Inr (d2, fl1 @ fl2)))"
  by (induction xs arbitrary: d) (auto split: sum.splits prod.splits)

lemma flush_snoc:
  "flush env d (xs @ [st]) =
     (case flush env d xs of
        Inl e \<Rightarrow> Inl e
      | Inr (d1, fl1) \<Rightarrow>
          (case fault env d1 st of
             Some e \<Rightarrow> Inl e
           | None \<Rightarrow> Inr (fst (apply_stmt env d1 st), fl1 @ [snd (apply_stmt env d1 st)])))"
  by (auto simp: flush_append exec_stmt_def split: sum.splits prod.splits option.splits)

lemma commit_ok:
  "flush env (store s) (pending s) = Inr (d, fl) \<Longrightarrow> commit_fault env d = None \<Longrightarrow>
     commit env s = (Inr fl, s\<lparr>store := d, pending := [], calls := calls s @ [Commit]\<rparr>)"
  by (simp add: commit_def)

lemma commit_flush_fault:
  "flush env (store s) (pending s) = Inl e \<Longrightarrow>
     commit env s = (Inl e, s\<lparr>pending := [], calls := calls s @ [Commit]\<rparr>)"
  by (simp add: commit_def)

lemma commit_commit_fault:
  "flush env (store s) (pending s) = Inr (d, fl) \<Longrightarrow> commit_fault env d = Some e \<Longrightarrow>
     commit env s = (Inl e, s\<lparr>pending := [], calls := calls s @ [Commit]\<rparr>)"
  by (simp add: commit_def)

subsection \<open>Ownership scoping\<close>

text \<open>
  C1. Let user \<open>a\<close> differ from user \<open>b\<close>, and let \<open>b\<close> own the journal entry with
  identifier \<open>entry_id\<close> and the article with identifier \<open>article_id\<close> (identifiers are
  primary keys). Then each of \<open>get_journal_entry\<close>, \<open>update_journal_entry_with_ai\<close>,
  \<open>delete_journal_entry\<close>, \<open>get_article\<close> and \<open>delete_article\<close>, called with \<open>a\<close> and that
  identifier, returns absent and leaves the session exactly as it was: nothing is read out,
  changed, deleted, registered or committed. Moreover whatever the two lookups return has
  the identifier asked for and belongs to the user asked for: the filter is the conjunction
  of both.
\<close>
theorem ownership_scoped_cross_user:
  assumes "a \<noteq> b"
    and "r \<in> set (journal_entries (store s))" "je_id r = Some entry_id" "je_user_id r = b"
    and "distinct (map je_id (journal_entries (store s)))"
    and "x \<in> set (articles (store s))" "art_id x = Some article_id" "art_user_id x = b"
    and "distinct (map art_id (articles (store s)))"
  shows "get_journal_entry s entry_id a = None
       \<and> update_journal_entry_with_ai env now s entry_id a ai = (Inr None, s)
       \<and> delete_journal_entry env s entry_id a = (Inr None, s)
       \<and> get_article s article_id a = None
       \<and> delete_article env s article_id a = (Inr None, s)
       \<and> (\<forall>u i e. get_journal_entry s i u = Some e \<longrightarrow> je_id e = Some i \<and> je_user_id e = u)
       \<and> (\<forall>u i y. get_article s i u = Some y \<longrightarrow> art_id y = Some i \<and> art_user_id y = u)"
proof -
  have e: "get_journal_entry s entry_id a = None"
    using get_journal_entry_not_owned [OF assms(1-5)] .
  have x: "get_article s article_id a = None"
    using get_article_not_owned [OF assms(1) assms(6-9)] .
  show ?thesis
    using e x get_journal_entry_SomeD get_article_SomeD
    by (simp add: update_journal_entry_with_ai_def delete_journal_entry_def delete_article_def)
qed

text \<open>
  Bob owns entry 2 and article 2 and finds them; Alice, asking for the same identifiers,
  gets nothing and changes nothing.
\<close>
theorem ownership_scoped_cross_user_witness:
  "alice \<noteq> bob
   \<and> get_journal_entry two_owners 2 bob = Some (entry 2 bob (day 4) (Some ''calm'') None)
   \<and> get_article two_owners 2 bob = Some (stamped 2 bob ''two'' 0)
   \<and> get_journal_entry two_owners 2 alice = None
   \<and> update_journal_entry_with_ai lenient (day 9) two_owners 2 alice analysis
       = (Inr None, two_owners)
   \<and> delete_journal_entry lenient two_owners 2 alice = (Inr None, two_owners)
   \<and> get_article two_owners 2 alice = None
   \<and> delete_article lenient two_owners 2 alice = (Inr None, two_owners)"
proof -
  let ?r = "entry 2 bob (day 4) (Some ''calm'') None"
  let ?x = "stamped 2 bob ''two'' 0"
  have 1: "alice \<noteq> bob" by (simp add: alice_def bob_def)
  have 2: "?r \<in> set (journal_entries (store two_owners))"
    by (simp add: two_owners_def session_of_def)
  have 3: "je_id ?r = Some 2" "je_user_id ?r = bob" by (simp_all add: entry_def)
  have 4: "distinct (map je_id (journal_entries (store two_owners)))"
    by (simp add: two_owners_def session_of_def entry_def)
  have 5: "?x \<in> set (articles (store two_owners))"
    by (simp add: two_owners_def session_of_def)
  have 6: "art_id ?x = Some 2" "art_user_id ?x = bob"
    by (simp_all add: stamped_def new_article_def item_def)
  have 7: "distinct (map art_id (articles (store two_owners)))"
    by (simp add: two_owners_def session_of_def stamped_def)
  have 8: "get_journal_entry two_owners 2 bob = Some ?r"
    by (simp add: get_journal_entry_def first_def two_owners_def session_of_def entry_def
        alice_def bob_def)
  have 9: "get_article two_owners 2 bob = Some ?x"
    by (simp add: get_article_def first_def two_owners_def session_of_def stamped_def
        new_article_def item_def alice_def bob_def)
  from ownership_scoped_cross_user [OF 1 2 3 4 5 6 7, of lenient "day 9" analysis] 1 8 9
  show ?thesis by simp
qed

subsection \<open>Bulk creation of articles\<close>












text \<open>
  C3. On the empty list \<open>create_articles_bulk\<close> returns the empty list and the session it
  was given: the committed tables, the unit of work and the sequence of calls made on the
  session are all unchanged, so nothing was added, committed, rolled back or refreshed.
\<close>
theorem create_articles_bulk_empty:
  "create_articles_bulk env utcnow s [] = (Inr [], s)"
  by (simp add: create_articles_bulk_def)

subsection \<open>Staging an article\<close>

text \<open>
  C9. \<open>create_article\<close> builds the article from the fields of its input, with no identifier
  and no generation time yet, registers its insert with the session by one \<open>add\<close> and
  returns it. It does not commit: the committed tables are those it found. The article
  becomes durable with a later commit of the session: when that commit succeeds, the last
  row of the committed article table is the staged article as the store has populated it.
\<close>
theorem create_article_stages_only:
  "create_article s article_in =
     (new_article article_in None,
      s\<lparr>pending := pending s @ [InsertArticle (new_article article_in None)],
        calls := calls s @ [Add]\<rparr>)
   \<and> store (snd (create_article s article_in)) = store s
   \<and> art_id (fst (create_article s article_in)) = None
   \<and> art_generated_at (fst (create_article s article_in)) = None
   \<and> (commit env (snd (create_article s article_in)) = (Inr fl, s') \<longrightarrow>
        (\<exists>earlier row. articles (store s') = earlier @ [row]
            \<and> row = populate_article env (store s'\<lparr>articles := earlier\<rparr>)
                      (new_article article_in None)))"
proof -
  let ?a = "new_article article_in None"
  let ?s1 = "s\<lparr>pending := pending s @ [InsertArticle ?a], calls := calls s @ [Add]\<rparr>"
  have c: "create_article s article_in = (?a, ?s1)"
    by (simp add: create_article_def add_def Let_def)
  have later: "\<exists>earlier row. articles (store s') = earlier @ [row]
            \<and> row = populate_article env (store s'\<lparr>articles := earlier\<rparr>) ?a"
    if h: "commit env ?s1 = (Inr fl, s')"
  proof -
    from h obtain d where f: "flush env (store s) (pending s @ [InsertArticle ?a]) = Inr (d, fl)"
      and s': "store s' = d"
      by (auto simp: commit_def split: sum.splits prod.splits option.splits)
    from f obtain d1 where
      d: "d = d1\<lparr>articles := articles d1 @ [populate_article env d1 ?a]\<rparr>"
      by (auto simp: flush_snoc Let_def split: sum.splits prod.splits option.splits)
    have "d\<lparr>articles := articles d1\<rparr> = d1" using d by simp
    then show ?thesis using d s' by auto
  qed
  show ?thesis using c later by (simp add: new_article_def)
qed

text \<open>
  Alice's article is staged on a session with nothing committed about it; the commit that
  follows appends it to the article table with the identifier and the default generation
  time of the store.
\<close>
theorem create_article_stages_only_witness:
  "store (snd (create_article two_owners (item alice ''draft''))) = store two_owners
   \<and> pending (snd (create_article two_owners (item alice ''draft'')))
       = [InsertArticle (new_article (item alice ''draft'') None)]
   \<and> calls (snd (create_article two_owners (item alice ''draft''))) = [Add]
   \<and> commit lenient (snd (create_article two_owners (item alice ''draft'')))
       = (Inr [InsertArticle (stamped 102 alice ''draft'' 0)],
          two_owners\<lparr>store := (store two_owners)
                       \<lparr>articles := articles (store two_owners)
                                      @ [stamped 102 alice ''draft'' 0]\<rparr>,
                     calls := [Add, Commit]\<rparr>)
   \<and> (\<exists>earlier row.
         articles ((store two_owners)
                     \<lparr>articles := articles (store two_owners)
                                    @ [stamped 102 alice ''draft'' 0]\<rparr>) = earlier @ [row]
       \<and> row = populate_article lenient
                 ((store two_owners)\<lparr>articles := earlier\<rparr>)
                 (new_article (item alice ''draft'') None))"
proof -
  let ?it = "item alice ''draft''"
  let ?d = "(store two_owners)\<lparr>articles := articles (store two_owners)
                                      @ [stamped 102 alice ''draft'' 0]\<rparr>"
  let ?s' = "two_owners\<lparr>store := ?d, calls := [Add, Commit]\<rparr>"
  have c: "commit lenient (snd (create_article two_owners ?it))
       = (Inr [InsertArticle (stamped 102 alice ''draft'' 0)], ?s')"
    by (simp add: create_article_def add_def commit_def two_owners_def session_of_def
        stamped_def new_article_def item_def lenient_def exec_stmt_def populate_article_def
        Let_def)
  have t: "create_article two_owners ?it =
     (new_article ?it None,
      two_owners\<lparr>pending := pending two_owners @ [InsertArticle (new_article ?it None)],
        calls := calls two_owners @ [Add]\<rparr>)
     \<and> store (snd (create_article two_owners ?it)) = store two_owners
     \<and> (\<exists>earlier row. articles (store ?s') = earlier @ [row]
            \<and> row = populate_article lenient (store ?s'\<lparr>articles := earlier\<rparr>)
                      (new_article ?it None))"
    using create_article_stages_only [of two_owners ?it lenient
        "[InsertArticle (stamped 102 alice ''draft'' 0)]" ?s'] c
    by blast
  have p: "pending (snd (create_article two_owners ?it)) = [InsertArticle (new_article ?it None)]"
    "calls (snd (create_article two_owners ?it)) = [Add]"
    using t by (simp_all add: two_owners_def session_of_def)
  from t have "\<exists>earlier row. articles ?d = earlier @ [row]
            \<and> row = populate_article lenient ((store two_owners)\<lparr>articles := earlier\<rparr>)
                      (new_article ?it None)"
    by simp
  with t p c show ?thesis by simp
qed

subsection \<open>Creating a user\<close>

lemma create_user_unfold:
  "create_user h env s u =
    (case commit env (s\<lparr>pending := pending s @ [InsertUser (new_user u (h (uc_password u)))],
                        calls := calls s @ [Add]\<rparr>) of
       (Inl e, s2) \<Rightarrow> (Inl e, s2)
     | (Inr fl, s2) \<Rightarrow> (Inr (refresh_user fl (new_user u (h (uc_password u)))),
                          s2\<lparr>calls := calls s2 @ [Refresh]\<rparr>))"
  by (simp add: create_user_def Let_def add_def refresh_def split: prod.splits sum.splits)

text \<open>
  C8. \<open>create_user\<close> uses the password only through the hash: it does what it would do
  with the identity as hash on the input whose password is already hashed, so the plaintext
  is in no statement and in no row. Let \<open>d1\<close> be the working tables after whatever the
  session holds already, \<open>db_user\<close> the user built from the input and the hash, and \<open>row\<close>
  that user with the identifier the store assigns.
  \<^item> When the store accepts the insert and the commit, \<open>row\<close> is appended to the committed
    user table and returned, populated, after one add, one commit and one refresh.
  \<^item> When the store rejects the insert (as it does on a taken email) or the commit with
    \<open>e\<close>, the call raises exactly \<open>e\<close> and the committed tables are as they were.
\<close>
theorem create_user_hashes_and_propagates:
  "create_user get_password_hash env s user =
     create_user (\<lambda>p. p) env s (user\<lparr>uc_password := get_password_hash (uc_password user)\<rparr>)
   \<and> (flush env (store s) (pending s) = Inr (d1, fl1)
        \<and> db_user = new_user user (get_password_hash (uc_password user))
        \<and> row = db_user\<lparr>u_id := Some (new_user_id env d1)\<rparr>
      \<longrightarrow> u_hashed_password row = get_password_hash (uc_password user)
          \<and> (fault env d1 (InsertUser db_user) = None
               \<and> commit_fault env (d1\<lparr>users := users d1 @ [row]\<rparr>) = None
             \<longrightarrow> create_user get_password_hash env s user =
                   (Inr row, \<lparr>store = d1\<lparr>users := users d1 @ [row]\<rparr>, pending = [],
                              calls = calls s @ [Add, Commit, Refresh]\<rparr>))
          \<and> (fault env d1 (InsertUser db_user) = Some e
               \<or> fault env d1 (InsertUser db_user) = None
                 \<and> commit_fault env (d1\<lparr>users := users d1 @ [row]\<rparr>) = Some e
             \<longrightarrow> create_user get_password_hash env s user =
                   (Inl e, s\<lparr>pending := [], calls := calls s @ [Add, Commit]\<rparr>)))"
proof (intro conjI impI)
  show "create_user get_password_hash env s user =
     create_user (\<lambda>p. p) env s (user\<lparr>uc_password := get_password_hash (uc_password user)\<rparr>)"
    by (simp add: create_user_def new_user_def)
next
  assume "flush env (store s) (pending s) = Inr (d1, fl1)
        \<and> db_user = new_user user (get_password_hash (uc_password user))
        \<and> row = db_user\<lparr>u_id := Some (new_user_id env d1)\<rparr>"
  then show "u_hashed_password row = get_password_hash (uc_password user)"
    by (simp add: new_user_def)
next
  let ?s1 = "s\<lparr>pending := pending s @ [InsertUser db_user], calls := calls s @ [Add]\<rparr>"
  let ?d2 = "d1\<lparr>users := users d1 @ [row]\<rparr>"
  assume h: "flush env (store s) (pending s) = Inr (d1, fl1)
        \<and> db_user = new_user user (get_password_hash (uc_password user))
        \<and> row = db_user\<lparr>u_id := Some (new_user_id env d1)\<rparr>"
    and ok: "fault env d1 (InsertUser db_user) = None \<and> commit_fault env ?d2 = None"
  from h have h1: "flush env (store s) (pending s) = Inr (d1, fl1)"
    and h2: "new_user user (get_password_hash (uc_password user)) = db_user"
    and h3: "row = db_user\<lparr>u_id := Some (new_user_id env d1)\<rparr>"
    by simp_all
  have "u_id db_user = None" using h2 by (auto simp: new_user_def)
  then have p: "populate_user env d1 db_user = row" by (simp add: populate_user_def h3)
  have ap: "apply_stmt env d1 (InsertUser db_user) = (?d2, InsertUser row)"
    by (simp add: p Let_def)
  have f: "flush env (store ?s1) (pending ?s1) = Inr (?d2, fl1 @ [InsertUser row])"
    using h1 ok by (simp add: flush_snoc ap del: apply_stmt.simps)
  have r: "refresh_user (fl1 @ [InsertUser row]) db_user = row"
    by (simp add: refresh_user_def own_def)
  show "create_user get_password_hash env s user =
               (Inr row, \<lparr>store = ?d2, pending = [],
                          calls = calls s @ [Add, Commit, Refresh]\<rparr>)"
    using commit_ok [OF f] ok by (simp add: create_user_unfold h2 r)
next
  let ?s1 = "s\<lparr>pending := pending s @ [InsertUser db_user], calls := calls s @ [Add]\<rparr>"
  let ?d2 = "d1\<lparr>users := users d1 @ [row]\<rparr>"
  assume h: "flush env (store s) (pending s) = Inr (d1, fl1)
        \<and> db_user = new_user user (get_password_hash (uc_password user))
        \<and> row = db_user\<lparr>u_id := Some (new_user_id env d1)\<rparr>"
    and bad: "fault env d1 (InsertUser db_user) = Some e
               \<or> fault env d1 (InsertUser db_user) = None \<and> commit_fault env ?d2 = Some e"
  from h have h1: "flush env (store s) (pending s) = Inr (d1, fl1)"
    and h2: "new_user user (get_password_hash (uc_password user)) = db_user"
    and h3: "row = db_user\<lparr>u_id := Some (new_user_id env d1)\<rparr>"
    by simp_all
  have "u_id db_user = None" using h2 by (auto simp: new_user_def)
  then have p: "populate_user env d1 db_user = row" by (simp add: populate_user_def h3)
  have ap: "apply_stmt env d1 (InsertUser db_user) = (?d2, InsertUser row)"
    by (simp add: p Let_def)
  from bad have "commit env ?s1 = (Inl e, ?s1\<lparr>pending := [], calls := calls ?s1 @ [Commit]\<rparr>)"
  proof
    assume "fault env d1 (InsertUser db_user) = Some e"
    then have "flush env (store ?s1) (pending ?s1) = Inl e"
      using h1 by (simp add: flush_snoc)
    then show ?thesis by (rule commit_flush_fault)
  next
    assume b: "fault env d1 (InsertUser db_user) = None \<and> commit_fault env ?d2 = Some e"
    then have "flush env (store ?s1) (pending ?s1) = Inr (?d2, fl1 @ [InsertUser row])"
      using h1 by (simp add: flush_snoc ap del: apply_stmt.simps)
    then show ?thesis using b commit_commit_fault by blast
  qed
  then show "create_user get_password_hash env s user =
                   (Inl e, s\<lparr>pending := [], calls := calls s @ [Add, Commit]\<rparr>)"
    by (simp add: create_user_unfold h2)
qed

text \<open>
  A signup with a new email is stored with the hash of the password, which is not the
  password; a signup with Alice's email is rejected by the store, and the error of the store
  is what the call raises.
\<close>
theorem create_user_hashes_and_propagates_witness:
  "flush constrained (store two_owners) (pending two_owners) = Inr (store two_owners, [])
   \<and> fault constrained (store two_owners) (InsertUser (new_user (signup ''c@x.org'') ''$terces''))
       = None
   \<and> toy_hash (uc_password (signup ''c@x.org'')) = ''$terces''
   \<and> create_user toy_hash constrained two_owners (signup ''c@x.org'')
       = (Inr ((new_user (signup ''c@x.org'') ''$terces'')\<lparr>u_id := Some 102\<rparr>),
          two_owners\<lparr>store := (store two_owners)
                       \<lparr>users := users (store two_owners)
                           @ [(new_user (signup ''c@x.org'') ''$terces'')\<lparr>u_id := Some 102\<rparr>]\<rparr>,
                     calls := [Add, Commit, Refresh]\<rparr>)
   \<and> fault constrained (store two_owners) (InsertUser (new_user (signup ''a@x.org'') ''$terces''))
       = Some (StoreError ''duplicate key: users.email'')
   \<and> create_user toy_hash constrained two_owners (signup ''a@x.org'')
       = (Inl (StoreError ''duplicate key: users.email''),
          two_owners\<lparr>calls := [Add, Commit]\<rparr>)"
proof -
  let ?e = "StoreError ''duplicate key: users.email''"
  let ?d1 = "store two_owners"
  have hp: "toy_hash (uc_password (signup mail)) = ''$terces''" for mail
    by (simp add: toy_hash_def signup_def)
  have fl: "flush constrained ?d1 (pending two_owners) = Inr (?d1, [])"
    by (simp add: two_owners_def session_of_def)
  have id: "new_user_id constrained ?d1 = 102"
    by (simp add: constrained_def lenient_def two_owners_def session_of_def)
  let ?c = "new_user (signup ''c@x.org'') ''$terces''"
  let ?a = "new_user (signup ''a@x.org'') ''$terces''"
  have fc: "fault constrained ?d1 (InsertUser ?c) = None"
    by (simp add: constrained_def lenient_def constraint_fault_def two_owners_def
        session_of_def member_def new_user_def signup_def)
  have cc: "commit_fault constrained (?d1\<lparr>users := users ?d1 @ [?c\<lparr>u_id := Some 102\<rparr>]\<rparr>) = None"
    by (simp add: constrained_def lenient_def)
  have fa: "fault constrained ?d1 (InsertUser ?a) = Some ?e"
    by (simp add: constrained_def lenient_def constraint_fault_def two_owners_def
        session_of_def member_def new_user_def signup_def)
  have ok: "create_user toy_hash constrained two_owners (signup ''c@x.org'')
       = (Inr (?c\<lparr>u_id := Some 102\<rparr>),
          \<lparr>store = ?d1\<lparr>users := users ?d1 @ [?c\<lparr>u_id := Some 102\<rparr>]\<rparr>, pending = [],
           calls = calls two_owners @ [Add, Commit, Refresh]\<rparr>)"
    using create_user_hashes_and_propagates [where get_password_hash = toy_hash
        and env = constrained and s = two_owners and user = "signup ''c@x.org''"
        and ?d1.0 = ?d1 and ?fl1.0 = "[] :: stmt list" and db_user = ?c and row = "?c\<lparr>u_id := Some 102\<rparr>",
        THEN conjunct2]
      fl fc cc
    by (simp add: hp id)
  have bad: "create_user toy_hash constrained two_owners (signup ''a@x.org'')
       = (Inl ?e, two_owners\<lparr>pending := [], calls := calls two_owners @ [Add, Commit]\<rparr>)"
    using create_user_hashes_and_propagates [where get_password_hash = toy_hash
        and env = constrained and s = two_owners and user = "signup ''a@x.org''"
        and ?d1.0 = ?d1 and ?fl1.0 = "[] :: stmt list" and db_user = ?a and row = "?a\<lparr>u_id := Some 102\<rparr>"
        and e = ?e, THEN conjunct2]
      fl fa
    by (simp add: hp id)
  show ?thesis using fl fc fa hp ok bad by (simp add: two_owners_def session_of_def)
qed

subsection \<open>Merging the analysis into an entry\<close>

lemma update_journal_entry_with_ai_unfold:
  "get_journal_entry s entry_id user_id = Some r \<Longrightarrow>
   r' = r\<lparr>je_sentiment_score := ai_sentiment_score ai,
           je_sentiment_label := ai_sentiment_label ai,
           je_key_themes := ai_key_themes ai,
           je_suggested_strategies := ai_suggested_strategies ai,
           je_ai_analysis_completed_at := Some now\<rparr> \<Longrightarrow>
   update_journal_entry_with_ai env now s entry_id user_id ai =
     (case commit env (s\<lparr>pending := pending s @ [UpdateEntry r']\<rparr>) of
        (Inl e, s2) \<Rightarrow> (Inl e, s2)
      | (Inr fl, s2) \<Rightarrow> (Inr (Some r'), s2\<lparr>calls := calls s2 @ [Refresh]\<rparr>))"
  by (simp add: update_journal_entry_with_ai_def Let_def dirty_def refresh_def
      split: prod.splits sum.splits)

text \<open>
  C6. When no entry has both the identifier \<open>entry_id\<close> and the owner \<open>user_id\<close> (it does
  not exist, or it is another user's), \<open>update_journal_entry_with_ai\<close> returns absent and the
  session it was given: nothing is changed, registered or committed.

  When the lookup finds the entry \<open>r\<close>, let \<open>r'\<close> be \<open>r\<close> with the sentiment score, the
  sentiment label, the key themes and the suggested strategies of the analysis and with the
  completion time \<open>now\<close>, every other field as in \<open>r\<close>; let \<open>d1\<close> be the working tables
  after whatever the session holds already and \<open>d2\<close> be \<open>d1\<close> with the row of that primary
  key replaced by \<open>r'\<close>.
  \<^item> When the store accepts the update and the commit, the committed tables are \<open>d2\<close>, with
    all five fields written by the one commit, and \<open>r'\<close> is returned.
  \<^item> When the store rejects the update or the commit with \<open>e\<close>, the call raises \<open>e\<close> and
    the committed tables are as they were: none of the five fields is written.
\<close>
theorem update_journal_entry_with_ai_atomic:
  "((\<forall>x\<in>set (journal_entries (store s)). \<not> (je_id x = Some entry_id \<and> je_user_id x = user_id))
      \<longrightarrow> update_journal_entry_with_ai env now s entry_id user_id ai = (Inr None, s))
   \<and> (get_journal_entry s entry_id user_id = Some r
        \<and> r' = r\<lparr>je_sentiment_score := ai_sentiment_score ai,
                  je_sentiment_label := ai_sentiment_label ai,
                  je_key_themes := ai_key_themes ai,
                  je_suggested_strategies := ai_suggested_strategies ai,
                  je_ai_analysis_completed_at := Some now\<rparr>
        \<and> flush env (store s) (pending s) = Inr (d1, fl1)
        \<and> d2 = d1\<lparr>journal_entries :=
                     map (\<lambda>x. if je_id x = Some entry_id then r' else x) (journal_entries d1)\<rparr>
      \<longrightarrow> (fault env d1 (UpdateEntry r') = None \<and> commit_fault env d2 = None
             \<longrightarrow> update_journal_entry_with_ai env now s entry_id user_id ai =
                   (Inr (Some r'),
                    \<lparr>store = d2, pending = [], calls = calls s @ [Commit, Refresh]\<rparr>))
          \<and> (fault env d1 (UpdateEntry r') = Some e
               \<or> fault env d1 (UpdateEntry r') = None \<and> commit_fault env d2 = Some e
             \<longrightarrow> update_journal_entry_with_ai env now s entry_id user_id ai =
                   (Inl e, s\<lparr>pending := [], calls := calls s @ [Commit]\<rparr>)))"
proof (intro conjI impI)
  assume "\<forall>x\<in>set (journal_entries (store s)).
            \<not> (je_id x = Some entry_id \<and> je_user_id x = user_id)"
  then have "get_journal_entry s entry_id user_id = None"
    by (simp add: get_journal_entry_def first_None_iff)
  then show "update_journal_entry_with_ai env now s entry_id user_id ai = (Inr None, s)"
    by (simp add: update_journal_entry_with_ai_def)
next
  let ?s1 = "s\<lparr>pending := pending s @ [UpdateEntry r']\<rparr>"
  assume h: "get_journal_entry s entry_id user_id = Some r
        \<and> r' = r\<lparr>je_sentiment_score := ai_sentiment_score ai,
                  je_sentiment_label := ai_sentiment_label ai,
                  je_key_themes := ai_key_themes ai,
                  je_suggested_strategies := ai_suggested_strategies ai,
                  je_ai_analysis_completed_at := Some now\<rparr>
        \<and> flush env (store s) (pending s) = Inr (d1, fl1)
        \<and> d2 = d1\<lparr>journal_entries :=
                     map (\<lambda>x. if je_id x = Some entry_id then r' else x) (journal_entries d1)\<rparr>"
    and ok: "fault env d1 (UpdateEntry r') = None \<and> commit_fault env d2 = None"
  from h have h3: "flush env (store s) (pending s) = Inr (d1, fl1)"
    and h4: "d2 = d1\<lparr>journal_entries :=
                     map (\<lambda>x. if je_id x = Some entry_id then r' else x) (journal_entries d1)\<rparr>"
    by simp_all
  have id: "je_id r' = Some entry_id"
    using h get_journal_entry_SomeD [of s entry_id user_id r] by simp
  have ap: "apply_stmt env d1 (UpdateEntry r') = (d2, UpdateEntry r')"
    by (simp add: h4 id)
  have f: "flush env (store ?s1) (pending ?s1) = Inr (d2, fl1 @ [UpdateEntry r'])"
    using h3 ok by (simp add: flush_snoc ap del: apply_stmt.simps)
  have u: "update_journal_entry_with_ai env now s entry_id user_id ai =
     (case commit env ?s1 of
        (Inl e, s2) \<Rightarrow> (Inl e, s2)
      | (Inr fl, s2) \<Rightarrow> (Inr (Some r'), s2\<lparr>calls := calls s2 @ [Refresh]\<rparr>))"
    using h update_journal_entry_with_ai_unfold by blast
  show "update_journal_entry_with_ai env now s entry_id user_id ai =
                   (Inr (Some r'),
                    \<lparr>store = d2, pending = [], calls = calls s @ [Commit, Refresh]\<rparr>)"
    using commit_ok [OF f] ok by (simp add: u)
next
  let ?s1 = "s\<lparr>pending := pending s @ [UpdateEntry r']\<rparr>"
  assume h: "get_journal_entry s entry_id user_id = Some r
        \<and> r' = r\<lparr>je_sentiment_score := ai_sentiment_score ai,
                  je_sentiment_label := ai_sentiment_label ai,
                  je_key_themes := ai_key_themes ai,
                  je_suggested_strategies := ai_suggested_strategies ai,
                  je_ai_analysis_completed_at := Some now\<rparr>
        \<and> flush env (store s) (pending s) = Inr (d1, fl1)
        \<and> d2 = d1\<lparr>journal_entries :=
                     map (\<lambda>x. if je_id x = Some entry_id then r' else x) (journal_entries d1)\<rparr>"
    and bad: "fault env d1 (UpdateEntry r') = Some e
               \<or> fault env d1 (UpdateEntry r') = None \<and> commit_fault env d2 = Some e"
  from h have h3: "flush env (store s) (pending s) = Inr (d1, fl1)"
    and h4: "d2 = d1\<lparr>journal_entries :=
                     map (\<lambda>x. if je_id x = Some entry_id then r' else x) (journal_entries d1)\<rparr>"
    by simp_all
  have id: "je_id r' = Some entry_id"
    using h get_journal_entry_SomeD [of s entry_id user_id r] by simp
  have ap: "apply_stmt env d1 (UpdateEntry r') = (d2, UpdateEntry r')"
    by (simp add: h4 id)
  have u: "update_journal_entry_with_ai env now s entry_id user_id ai =
     (case commit env ?s1 of
        (Inl e, s2) \<Rightarrow> (Inl e, s2)
      | (Inr fl, s2) \<Rightarrow> (Inr (Some r'), s2\<lparr>calls := calls s2 @ [Refresh]\<rparr>))"
    using h update_journal_entry_with_ai_unfold by blast
  from bad have "commit env ?s1 = (Inl e, ?s1\<lparr>pending := [], calls := calls ?s1 @ [Commit]\<rparr>)"
  proof
    assume "fault env d1 (UpdateEntry r') = Some e"
    then have "flush env (store ?s1) (pending ?s1) = Inl e"
      using h3 by (simp add: flush_snoc)
    then show ?thesis by (rule commit_flush_fault)
  next
    assume b: "fault env d1 (UpdateEntry r') = None \<and> commit_fault env d2 = Some e"
    then have "flush env (store ?s1) (pending ?s1) = Inr (d2, fl1 @ [UpdateEntry r'])"
      using h3 by (simp add: flush_snoc ap del: apply_stmt.simps)
    then show ?thesis using b commit_commit_fault by blast
  qed
  then show "update_journal_entry_with_ai env now s entry_id user_id ai =
                   (Inl e, s\<lparr>pending := [], calls := calls s @ [Commit]\<rparr>)"
    by (simp add: u)
qed

text \<open>
  Alice's entry 1 takes the analysis, and Bob's entry 2 is untouched; with a store that
  fails the commit nothing is written; entry 5 does not exist and entry 2 is not Alice's,
  and for both the call returns absent and changes nothing.
\<close>
theorem update_journal_entry_with_ai_atomic_witness:
  "get_journal_entry two_owners 1 alice = Some (entry 1 alice (day 3) (Some ''low'') None)
   \<and> update_journal_entry_with_ai lenient (day 9) two_owners 1 alice analysis
       = (Inr (Some (analysed (entry 1 alice (day 3) (Some ''low'') None) (day 9))),
          two_owners\<lparr>store := (store two_owners)
                       \<lparr>journal_entries :=
                          [analysed (entry 1 alice (day 3) (Some ''low'') None) (day 9),
                           entry 2 bob (day 4) (Some ''calm'') None]\<rparr>,
                     calls := [Commit, Refresh]\<rparr>)
   \<and> update_journal_entry_with_ai failing_commit (day 9) two_owners 1 alice analysis
       = (Inl (StoreError ''connection lost''), two_owners\<lparr>calls := [Commit]\<rparr>)
   \<and> update_journal_entry_with_ai lenient (day 9) two_owners 5 alice analysis
       = (Inr None, two_owners)
   \<and> update_journal_entry_with_ai lenient (day 9) two_owners 2 alice analysis
       = (Inr None, two_owners)"
proof -
  let ?r = "entry 1 alice (day 3) (Some ''low'') None"
  let ?r' = "analysed ?r (day 9)"
  let ?d1 = "store two_owners"
  let ?d2 = "?d1\<lparr>journal_entries := [?r', entry 2 bob (day 4) (Some ''calm'') None]\<rparr>"
  let ?e = "StoreError ''connection lost''"
  have g: "get_journal_entry two_owners 1 alice = Some ?r"
    by (simp add: get_journal_entry_def first_def two_owners_def session_of_def entry_def
        alice_def bob_def)
  have r': "?r' = ?r\<lparr>je_sentiment_score := ai_sentiment_score analysis,
                  je_sentiment_label := ai_sentiment_label analysis,
                  je_key_themes := ai_key_themes analysis,
                  je_suggested_strategies := ai_suggested_strategies analysis,
                  je_ai_analysis_completed_at := Some (day 9)\<rparr>"
    by (simp add: analysed_def analysis_def)
  have fl: "flush env ?d1 (pending two_owners) = Inr (?d1, [])" for env
    by (simp add: two_owners_def session_of_def)
  have d2: "?d2 = ?d1\<lparr>journal_entries :=
                     map (\<lambda>x. if je_id x = Some 1 then ?r' else x) (journal_entries ?d1)\<rparr>"
    by (simp add: two_owners_def session_of_def entry_def)
  have none5: "\<forall>x\<in>set (journal_entries ?d1). \<not> (je_id x = Some 5 \<and> je_user_id x = alice)"
    by (simp add: two_owners_def session_of_def entry_def)
  have none2: "\<forall>x\<in>set (journal_entries ?d1). \<not> (je_id x = Some 2 \<and> je_user_id x = alice)"
    by (simp add: two_owners_def session_of_def entry_def alice_def bob_def)
  have a: "update_journal_entry_with_ai lenient (day 9) two_owners 1 alice analysis
       = (Inr (Some ?r'), \<lparr>store = ?d2, pending = [], calls = calls two_owners @ [Commit, Refresh]\<rparr>)"
    using update_journal_entry_with_ai_atomic [where env = lenient and s = two_owners
        and now = "day 9" and entry_id = 1 and user_id = alice and ai = analysis and r = ?r
        and r' = ?r' and ?d1.0 = ?d1 and ?fl1.0 = "[] :: stmt list" and ?d2.0 = ?d2, THEN conjunct2]
      g r' fl d2
    by (simp add: lenient_def)
  have b: "update_journal_entry_with_ai failing_commit (day 9) two_owners 1 alice analysis
       = (Inl ?e, two_owners\<lparr>pending := [], calls := calls two_owners @ [Commit]\<rparr>)"
    using update_journal_entry_with_ai_atomic [where env = failing_commit and s = two_owners
        and now = "day 9" and entry_id = 1 and user_id = alice and ai = analysis and r = ?r
        and r' = ?r' and ?d1.0 = ?d1 and ?fl1.0 = "[] :: stmt list" and ?d2.0 = ?d2 and e = ?e,
        THEN conjunct2]
      g r' fl d2
    by (simp add: failing_commit_def lenient_def)
  have c: "update_journal_entry_with_ai lenient (day 9) two_owners 5 alice analysis
       = (Inr None, two_owners)"
    using update_journal_entry_with_ai_atomic [where env = lenient and s = two_owners
        and now = "day 9" and entry_id = 5 and user_id = alice and ai = analysis,
        THEN conjunct1] none5
    by blast
  have d: "update_journal_entry_with_ai lenient (day 9) two_owners 2 alice analysis
       = (Inr None, two_owners)"
    using update_journal_entry_with_ai_atomic [where env = lenient and s = two_owners
        and now = "day 9" and entry_id = 2 and user_id = alice and ai = analysis,
        THEN conjunct1] none2
    by blast
  show ?thesis using g a b c d by (simp add: two_owners_def session_of_def)
qed

subsection \<open>Theme frequency\<close>






lemma counted_Cons:
  "counted tc (x # xs) = counted (counter_incr x tc) xs"
  by (simp add: counted_def)








lemma counter_update_strings:
  "Unhashable \<notin> set xs \<Longrightarrow> counter_update tc xs = Inr (counted tc (strings xs))"
proof (induction xs arbitrary: tc)
  case Nil
  then show ?case by (simp add: counted_def)
next
  case (Cons x xs)
  then show ?case by (cases x) (simp_all add: counted_Cons)
qed

lemma counter_update_unhashable:
  "Unhashable \<in> set xs \<Longrightarrow> counter_update tc xs = Inl TypeError"
proof (induction xs arbitrary: tc)
  case Nil
  then show ?case by simp
next
  case (Cons x xs)
  then show ?case by (cases x) auto
qed

lemma tally_taken:
  "raised loads c = None \<Longrightarrow>
     tally loads (tc, out) c
       = (Inr (counted tc (accepted loads c)), out @ map warning (malformed loads c))"
  by (cases c)
     (auto simp: counter_update_strings counted_def split: decoded.splits if_splits)

lemma tally_raised:
  "raised loads c = Some e \<Longrightarrow> tally loads (tc, out) c = (Inl e, out)"
  by (cases c) (auto simp: counter_update_unhashable split: decoded.splits if_splits)


text \<open>The loop ends with the first exception, after the warnings printed until then.\<close>
lemma scan_raised:
  "\<forall>c\<in>set before. raised loads c = None \<Longrightarrow> raised loads c = Some e \<Longrightarrow>
     scan loads (tc, out) (before @ c # after)
       = (Inl e, out @ map warning (malformed_texts loads before))"
proof (induction before arbitrary: tc out)
  case Nil
  then show ?case by (simp add: tally_raised malformed_texts_def)
next
  case (Cons b before)
  have step: "tally loads (tc, out) b
       = (Inr (counted tc (accepted loads b)), out @ map warning (malformed loads b))"
    using Cons.prems(1) by (intro tally_taken) simp
  have rest: "\<forall>c\<in>set before. raised loads c = None" using Cons.prems(1) by simp
  show ?case
    by (simp add: step Cons.IH [OF rest Cons.prems(2)] malformed_texts_def)
qed



lemma start_date_cases:
  "start_date now days =
     (if \<bar>days\<bar> \<le> 999999999 \<and> 0 \<le> now - days * us_per_day
          \<and> now - days * us_per_day < datetime_end
      then Inr (now - days * us_per_day) else Inl OverflowError)"
  by (simp add: start_date_def timedelta_days_def datetime_sub_def Let_def)



lemma deep_text_is_no_sample: "deep_text \<noteq> list_a_text" "deep_text \<noteq> ''{}''"
  "deep_text \<noteq> ''5''" "deep_text \<noteq> ''{oops''"
proof -
  have l: "length deep_text = 1000" by (simp add: deep_text_def)
  show "deep_text \<noteq> list_a_text"
    using l by (auto simp: list_a_text_def quoted_def dest: arg_cong [where f = length])
  show "deep_text \<noteq> ''{}''" using l by (auto dest: arg_cong [where f = length])
  show "deep_text \<noteq> ''5''" using l by (auto dest: arg_cong [where f = length])
  show "deep_text \<noteq> ''{oops''" using l by (auto dest: arg_cong [where f = length])
qed

lemma sample_loads_values:
  "sample_loads deep_text = Raised RecursionError"
  "sample_loads list_a_text = DecodedList [Str ''a'']"
  "sample_loads ''{}'' = DecodedOther"
  "sample_loads ''5'' = DecodedOther"
  "sample_loads ''{oops'' = JSONDecodeError"
  using deep_text_is_no_sample
  by (auto simp: sample_loads_def list_a_text_def quoted_def)




subsection \<open>A text that is JSON and not a list\<close>

lemma tally_non_list_text:
  "non_list_text loads c \<Longrightarrow> tally loads (tc, out) c = (Inr tc, out)"
  by (cases c) (auto simp: non_list_text_def)

lemma scan_without_non_list_texts:
  "scan loads (tc, out) (filter (\<lambda>c. \<not> non_list_text loads c) cols)
     = scan loads (tc, out) cols"
proof (induction cols arbitrary: tc out)
  case Nil
  then show ?case by simp
next
  case (Cons c cols)
  show ?case
  proof (cases "non_list_text loads c")
    case True
    then show ?thesis by (simp add: tally_non_list_text Cons.IH)
  next
    case False
    then show ?thesis
      by (cases "tally loads (tc, out) c") (auto simp: Cons.IH split: sum.splits)
  qed
qed

lemma select_key_themes_without:
  "select_key_themes (without_non_list_texts loads s) user_id start =
     filter (\<lambda>c. \<not> non_list_text loads c) (select_key_themes s user_id start)"
proof -
  have "List.map_filter f (filter Q (filter K xs)) = filter N (List.map_filter f (filter Q xs))"
    if "\<And>r. K r = (case f r of None \<Rightarrow> True | Some c \<Rightarrow> N c)"
    for f :: "journal_entry \<Rightarrow> json_column option" and Q K N xs
    by (induction xs) (auto simp: that split: option.splits)
  then show ?thesis
    by (simp add: select_key_themes_def without_non_list_texts_def)
qed

text \<open>
  C10. An entry whose key themes are a text that decodes to a value that is not a list is
  skipped without a trace: the result and the warnings of \<open>get_theme_frequency\<close> are what
  they are without these entries. In the loop such a text leaves the counter and the output
  as they are, where a text that does not decode leaves the counter and adds a warning.
\<close>
theorem non_list_json_text_skipped_silently:
  "get_theme_frequency loads now (without_non_list_texts loads s) user_id days
     = get_theme_frequency loads now s user_id days
   \<and> (loads t = DecodedOther \<longrightarrow> tally loads (tc, out) (TextValue t) = (Inr tc, out))
   \<and> (loads t = JSONDecodeError \<longrightarrow>
        tally loads (tc, out) (TextValue t) = (Inr tc, out @ [warning t]))"
proof (intro conjI impI)
  show "get_theme_frequency loads now (without_non_list_texts loads s) user_id days
     = get_theme_frequency loads now s user_id days"
    by (simp add: get_theme_frequency_def Let_def select_key_themes_without
        scan_without_non_list_texts split: sum.splits)
qed simp_all

text \<open>
  The empty object among Alice's key themes counts for nothing and prints nothing; the text
  that does not decode prints its warning.
\<close>
theorem non_list_json_text_skipped_silently_witness:
  "sample_loads ''{}'' = DecodedOther
   \<and> sample_loads ''{oops'' = JSONDecodeError
   \<and> without_non_list_texts sample_loads themed = themed_lists_only
   \<and> get_theme_frequency sample_loads (day 10) themed alice 7
       = get_theme_frequency sample_loads (day 10) themed_lists_only alice 7
   \<and> tally sample_loads ([(''a'', 2)], []) (TextValue ''{}'') = (Inr [(''a'', 2)], [])
   \<and> tally sample_loads ([(''a'', 2)], []) (TextValue ''{oops'')
       = (Inr [(''a'', 2)], [warning ''{oops''])"
proof -
  have o: "sample_loads ''{}'' = DecodedOther" by (rule sample_loads_values)
  have e: "sample_loads ''{oops'' = JSONDecodeError" by (rule sample_loads_values)
  have w: "without_non_list_texts sample_loads themed = themed_lists_only"
    by (simp add: without_non_list_texts_def themed_def themed_lists_only_def session_of_def
        entry_def non_list_text_def sample_loads_values)
  note t = non_list_json_text_skipped_silently [where loads = sample_loads and s = themed
      and now = "day 10" and user_id = alice and days = 7 and tc = "[(''a'', 2)]" and out = "[]"]
  from t [where t = "''{}''"] o
  have 1: "get_theme_frequency sample_loads (day 10) (without_non_list_texts sample_loads themed)
             alice 7 = get_theme_frequency sample_loads (day 10) themed alice 7"
    and 2: "tally sample_loads ([(''a'', 2)], []) (TextValue ''{}'') = (Inr [(''a'', 2)], [])"
    by simp_all
  from t [where t = "''{oops''"] e
  have 3: "tally sample_loads ([(''a'', 2)], []) (TextValue ''{oops'')
       = (Inr [(''a'', 2)], [warning ''{oops''])"
    by simp
  show ?thesis using o e w 1 2 3 by simp
qed

subsection \<open>Listing and mood history\<close>

lemma order_by_desc_props:
  "mset (order_by_desc key rows) = mset rows"
  "sorted_wrt (\<lambda>x y. key x \<ge> key y) (order_by_desc key rows)"
proof -
  show "mset (order_by_desc key rows) = mset rows" by (simp add: order_by_desc_def)
  have "sorted (map (\<lambda>r. - key r) (order_by_desc key rows))"
    unfolding order_by_desc_def by (rule sorted_sort_key)
  then show "sorted_wrt (\<lambda>x y. key x \<ge> key y) (order_by_desc key rows)"
    by (simp add: sorted_map)
qed

lemma order_by_asc_props:
  "mset (order_by_asc key rows) = mset rows"
  "sorted (map key (order_by_asc key rows))"
  by (simp_all add: order_by_asc_def)

text \<open>
  C7, as the code has it. \<open>get_user_journal_entries\<close> orders exactly the user's entries
  by creation time, newest first, and hands \<open>skip\<close> and \<open>limit\<close> to the store as they
  are, with neither bound clamped. When neither is negative it returns the rows at the
  positions \<open>skip\<close> up to, not including, \<open>skip + limit\<close> of that ordering, as many as
  there are in that range. When one is negative the result is what the store makes of the
  two numbers on that ordering.
\<close>
theorem get_user_journal_entries_window:
  "\<exists>ordered.
     mset ordered
       = mset (filter (\<lambda>r. je_user_id r = user_id) (journal_entries (store s)))
   \<and> sorted_wrt (\<lambda>x y. je_created_at x \<ge> je_created_at y) ordered
   \<and> (0 \<le> skip \<and> 0 \<le> limit
        \<longrightarrow> get_user_journal_entries negative s user_id skip limit
              = Inr (take (nat limit) (drop (nat skip) ordered))
          \<and> length (take (nat limit) (drop (nat skip) ordered))
              = min (nat limit) (length ordered - nat skip)
          \<and> (\<forall>i<min (nat limit) (length ordered - nat skip).
                take (nat limit) (drop (nat skip) ordered) ! i = ordered ! (nat skip + i)))
   \<and> (skip < 0 \<or> limit < 0
        \<longrightarrow> get_user_journal_entries negative s user_id skip limit
              = negative skip limit ordered)"
proof -
  let ?ordered = "order_by_desc je_created_at
          (filter (\<lambda>r. je_user_id r = user_id) (journal_entries (store s)))"
  have w: "get_user_journal_entries negative s user_id skip limit
             = Inr (take (nat limit) (drop (nat skip) ?ordered))"
    if "0 \<le> skip \<and> 0 \<le> limit"
    using that by (simp add: get_user_journal_entries_def offset_limit_def)
  have n: "get_user_journal_entries negative s user_id skip limit
             = negative skip limit ?ordered"
    if "skip < 0 \<or> limit < 0"
    using that by (auto simp: get_user_journal_entries_def offset_limit_def)
  have l: "length (take (nat limit) (drop (nat skip) ?ordered))
             = min (nat limit) (length ?ordered - nat skip)"
    by (simp add: min.commute)
  have nth: "\<forall>i<min (nat limit) (length ?ordered - nat skip).
               take (nat limit) (drop (nat skip) ?ordered) ! i = ?ordered ! (nat skip + i)"
  proof (intro allI impI)
    fix i
    assume i: "i < min (nat limit) (length ?ordered - nat skip)"
    then have i1: "i < nat limit" and i2: "nat skip \<le> length ?ordered" by linarith+
    have "take (nat limit) (drop (nat skip) ?ordered) ! i = drop (nat skip) ?ordered ! i"
      using i1 by (rule nth_take)
    also have "\<dots> = ?ordered ! (nat skip + i)"
      using i2 by (rule nth_drop)
    finally show "take (nat limit) (drop (nat skip) ?ordered) ! i = ?ordered ! (nat skip + i)" .
  qed
  show ?thesis
    apply (rule exI [of _ ?ordered])
    using w n l nth
      order_by_desc_props [of je_created_at
        "filter (\<lambda>r. je_user_id r = user_id) (journal_entries (store s))"]
    by blast
qed

lemma diary_newest_first:
  "order_by_desc je_created_at
     (filter (\<lambda>r. je_user_id r = alice) (journal_entries (store diary)))
   = [entry 6 alice (day 12) (Some ''calm'') None,
      entry 5 alice (day 8) (Some ''glad'') None,
      entry 4 alice (day 6) None None,
      entry 2 alice (day 3) (Some ''calm'') None,
      entry 1 alice (day 2) (Some ''low'') None]"
  by (simp add: order_by_desc_def diary_def session_of_def entry_def alice_def bob_def day_def
      us_per_day_def)

text \<open>
  C7 as stated does not hold for every limit: with the limit \<open>-1\<close> there is no position
  from \<open>0\<close> up to \<open>0 + (-1)\<close>, and the call returns all five entries of Alice on a store
  that reads a negative limit as SQLite does, and raises on a store that rejects it.
\<close>
theorem get_user_journal_entries_negative_counterexample:
  "get_user_journal_entries sqlite_negative diary alice 0 (- 1)
     = Inr [entry 6 alice (day 12) (Some ''calm'') None,
            entry 5 alice (day 8) (Some ''glad'') None,
            entry 4 alice (day 6) None None,
            entry 2 alice (day 3) (Some ''calm'') None,
            entry 1 alice (day 2) (Some ''low'') None]
   \<and> get_user_journal_entries rejecting_negative diary alice 0 (- 1)
       = Inl (StoreError ''negative OFFSET or LIMIT'')
   \<and> (0::int) + (- 1) < 0"
  by (simp add: get_user_journal_entries_def offset_limit_def diary_newest_first
      sqlite_negative_def rejecting_negative_def)

text \<open>
  Of Alice's five entries, newest first, offset 1 and limit 2 give the second and the third,
  and a limit of 1000 gives them all, whatever the store does with negative numbers; the
  limit \<open>-1\<close> gives what the store makes of it.
\<close>
theorem get_user_journal_entries_window_witness:
  "(0::int) \<le> 1 \<and> (0::int) \<le> 2
   \<and> get_user_journal_entries rejecting_negative diary alice 1 2
       = Inr [entry 5 alice (day 8) (Some ''glad'') None, entry 4 alice (day 6) None None]
   \<and> get_user_journal_entries rejecting_negative diary alice 0 1000
       = Inr [entry 6 alice (day 12) (Some ''calm'') None,
              entry 5 alice (day 8) (Some ''glad'') None,
              entry 4 alice (day 6) None None,
              entry 2 alice (day 3) (Some ''calm'') None,
              entry 1 alice (day 2) (Some ''low'') None]
   \<and> (\<exists>ordered.
         mset ordered
           = mset (filter (\<lambda>r. je_user_id r = alice) (journal_entries (store diary)))
       \<and> sorted_wrt (\<lambda>x y. je_created_at x \<ge> je_created_at y) ordered
       \<and> get_user_journal_entries rejecting_negative diary alice 1 2
           = Inr (take 2 (drop 1 ordered)))
   \<and> (0::int) \<le> 0 \<and> (- 1 :: int) < 0
   \<and> (\<exists>ordered.
         mset ordered
           = mset (filter (\<lambda>r. je_user_id r = alice) (journal_entries (store diary)))
       \<and> sorted_wrt (\<lambda>x y. je_created_at x \<ge> je_created_at y) ordered
       \<and> get_user_journal_entries sqlite_negative diary alice 0 (- 1)
           = sqlite_negative 0 (- 1) ordered)"
proof -
  have h: "(0::int) \<le> 1 \<and> (0::int) \<le> 2" by simp
  have a: "get_user_journal_entries rejecting_negative diary alice 1 2
       = Inr [entry 5 alice (day 8) (Some ''glad'') None, entry 4 alice (day 6) None None]"
    by (simp add: get_user_journal_entries_def offset_limit_def diary_newest_first)
  have b: "get_user_journal_entries rejecting_negative diary alice 0 1000
       = Inr [entry 6 alice (day 12) (Some ''calm'') None,
              entry 5 alice (day 8) (Some ''glad'') None,
              entry 4 alice (day 6) None None,
              entry 2 alice (day 3) (Some ''calm'') None,
              entry 1 alice (day 2) (Some ''low'') None]"
    by (simp add: get_user_journal_entries_def offset_limit_def diary_newest_first)
  from get_user_journal_entries_window [of alice diary 1 2 rejecting_negative] h
  obtain ordered where
    o: "mset ordered
           = mset (filter (\<lambda>r. je_user_id r = alice) (journal_entries (store diary)))"
       "sorted_wrt (\<lambda>x y. je_created_at x \<ge> je_created_at y) ordered"
       "get_user_journal_entries rejecting_negative diary alice 1 2
          = Inr (take (nat 2) (drop (nat 1) ordered))"
    by blast
  have n: "nat 2 = 2" "nat 1 = 1" by simp_all
  have 1: "\<exists>ordered.
         mset ordered
           = mset (filter (\<lambda>r. je_user_id r = alice) (journal_entries (store diary)))
       \<and> sorted_wrt (\<lambda>x y. je_created_at x \<ge> je_created_at y) ordered
       \<and> get_user_journal_entries rejecting_negative diary alice 1 2
           = Inr (take 2 (drop 1 ordered))"
    using o unfolding n by blast
  have neg: "(0::int) < 0 \<or> (- 1 :: int) < 0" by simp
  from get_user_journal_entries_window [of alice diary 0 "- 1" sqlite_negative] neg
  have 2: "\<exists>ordered.
         mset ordered
           = mset (filter (\<lambda>r. je_user_id r = alice) (journal_entries (store diary)))
       \<and> sorted_wrt (\<lambda>x y. je_created_at x \<ge> je_created_at y) ordered
       \<and> get_user_journal_entries sqlite_negative diary alice 0 (- 1)
           = sqlite_negative 0 (- 1) ordered"
    by blast
  show ?thesis using a b 1 2 by simp
qed

lemma get_mood_history_unfold:
  "start_date now days = Inr start \<Longrightarrow>
   get_mood_history now s user_id days =
     Inr (map (\<lambda>r. \<lparr>mp_date = je_created_at r, mp_mood = je_mood r\<rparr>)
            (order_by_asc je_created_at
               (filter (\<lambda>r. je_user_id r = user_id \<and> start \<le> je_created_at r
                            \<and> je_mood r \<noteq> None)
                  (journal_entries (store s)))))"
  by (simp add: get_mood_history_def Let_def comp_def)

text \<open>
  C5, as the code has it. When \<open>days\<close> is at most 999999999 in magnitude and \<open>start\<close>,
  which is \<open>now\<close> less \<open>days\<close> days, is a \<^verbatim>\<open>datetime\<close>, \<open>get_mood_history\<close> returns one
  point (creation time, mood) for exactly the user's entries created at \<open>start\<close> or later
  whose mood is not absent, in ascending order of creation time. The query has no upper
  bound, so an entry of the user with a mood that is dated after \<open>now\<close> is among them; when
  no entry of the user is dated after \<open>now\<close>, the entries returned are exactly those of the
  user with a mood in the window from \<open>start\<close> to \<open>now\<close>. For any other \<open>days\<close> the call
  raises \<^verbatim>\<open>OverflowError\<close>.
\<close>
theorem get_mood_history_from_start:
  "(\<bar>days\<bar> \<le> 999999999 \<and> start = now - days * us_per_day \<and> 0 \<le> start
      \<and> start < datetime_end
    \<longrightarrow> (\<exists>rows.
           mset rows
             = mset (filter (\<lambda>r. je_user_id r = user_id \<and> start \<le> je_created_at r
                                 \<and> je_mood r \<noteq> None)
                       (journal_entries (store s)))
         \<and> sorted (map je_created_at rows)
         \<and> get_mood_history now s user_id days
             = Inr (map (\<lambda>r. \<lparr>mp_date = je_created_at r, mp_mood = je_mood r\<rparr>) rows)
         \<and> ((\<forall>r\<in>set (journal_entries (store s)).
                 je_user_id r = user_id \<longrightarrow> je_created_at r \<le> now)
              \<longrightarrow> mset rows
                    = mset (filter (\<lambda>r. je_user_id r = user_id \<and> start \<le> je_created_at r
                                        \<and> je_created_at r \<le> now \<and> je_mood r \<noteq> None)
                              (journal_entries (store s))))))
   \<and> (\<not> (\<bar>days\<bar> \<le> 999999999 \<and> 0 \<le> now - days * us_per_day
           \<and> now - days * us_per_day < datetime_end)
      \<longrightarrow> get_mood_history now s user_id days = Inl OverflowError)"
proof (intro conjI impI)
  assume h: "\<bar>days\<bar> \<le> 999999999 \<and> start = now - days * us_per_day \<and> 0 \<le> start
      \<and> start < datetime_end"
  let ?P = "\<lambda>r. je_user_id r = user_id \<and> start \<le> je_created_at r \<and> je_mood r \<noteq> None"
  let ?Q = "\<lambda>r. je_user_id r = user_id \<and> start \<le> je_created_at r
                 \<and> je_created_at r \<le> now \<and> je_mood r \<noteq> None"
  let ?es = "journal_entries (store s)"
  let ?rows = "order_by_asc je_created_at (filter ?P ?es)"
  from h have sd: "start_date now days = Inr start" by (simp add: start_date_cases)
  have bounded: "mset ?rows = mset (filter ?Q ?es)"
    if b: "\<forall>r\<in>set ?es. je_user_id r = user_id \<longrightarrow> je_created_at r \<le> now"
  proof -
    have "filter ?P ?es = filter ?Q ?es" using b by (intro filter_cong) auto
    then show ?thesis by (simp add: order_by_asc_props(1))
  qed
  show "\<exists>rows.
           mset rows = mset (filter ?P ?es)
         \<and> sorted (map je_created_at rows)
         \<and> get_mood_history now s user_id days
             = Inr (map (\<lambda>r. \<lparr>mp_date = je_created_at r, mp_mood = je_mood r\<rparr>) rows)
         \<and> ((\<forall>r\<in>set ?es. je_user_id r = user_id \<longrightarrow> je_created_at r \<le> now)
              \<longrightarrow> mset rows = mset (filter ?Q ?es))"
    apply (rule exI [of _ ?rows])
    using bounded order_by_asc_props [of je_created_at "filter ?P ?es"]
      get_mood_history_unfold [OF sd, of s user_id]
    by blast
next
  assume "\<not> (\<bar>days\<bar> \<le> 999999999 \<and> 0 \<le> now - days * us_per_day
           \<and> now - days * us_per_day < datetime_end)"
  then have "start_date now days = Inl OverflowError" by (simp add: start_date_cases)
  then show "get_mood_history now s user_id days = Inl OverflowError"
    by (simp add: get_mood_history_def)
qed

text \<open>
  C5 as stated does not hold: on day 10, with a window of seven days, the entry of Alice
  dated day 12 is returned, and day 12 is not in the window from day 3 to day 10.
\<close>
theorem get_mood_history_upper_bound_counterexample:
  "get_mood_history (day 10) diary alice 7
     = Inr [\<lparr>mp_date = day 3, mp_mood = Some ''calm''\<rparr>,
            \<lparr>mp_date = day 8, mp_mood = Some ''glad''\<rparr>,
            \<lparr>mp_date = day 12, mp_mood = Some ''calm''\<rparr>]
   \<and> \<not> day 12 \<le> day 10"
  by (simp add: get_mood_history_def start_date_cases order_by_asc_def diary_def session_of_def
      entry_def alice_def bob_def day_def us_per_day_def datetime_end_def)

text \<open>
  On day 10 a window of seven days starts on day 3: of Alice's entries the one of day 2 and
  the one without a mood are left out, the one of day 3 is in, and so is the one of day 12.
  No entry of Bob is dated after day 10, and his mood history is that of the window from
  day 3 to day 10. A window of 1000000000 days, and one that would start before the first
  \<^verbatim>\<open>datetime\<close>, raise.
\<close>
theorem get_mood_history_from_start_witness:
  "\<bar>7 :: int\<bar> \<le> 999999999 \<and> day 3 = day 10 - 7 * us_per_day \<and> 0 \<le> day 3
   \<and> day 3 < datetime_end
   \<and> (\<exists>rows.
         mset rows
           = mset (filter (\<lambda>r. je_user_id r = alice \<and> day 3 \<le> je_created_at r
                               \<and> je_mood r \<noteq> None)
                     (journal_entries (store diary)))
       \<and> sorted (map je_created_at rows)
       \<and> get_mood_history (day 10) diary alice 7
           = Inr (map (\<lambda>r. \<lparr>mp_date = je_created_at r, mp_mood = je_mood r\<rparr>) rows))
   \<and> get_mood_history (day 10) diary alice 7
       = Inr [\<lparr>mp_date = day 3, mp_mood = Some ''calm''\<rparr>,
              \<lparr>mp_date = day 8, mp_mood = Some ''glad''\<rparr>,
              \<lparr>mp_date = day 12, mp_mood = Some ''calm''\<rparr>]
   \<and> (\<exists>rows.
         mset rows
           = mset (filter (\<lambda>r. je_user_id r = bob \<and> day 3 \<le> je_created_at r
                               \<and> je_created_at r \<le> day 10 \<and> je_mood r \<noteq> None)
                     (journal_entries (store diary)))
       \<and> get_mood_history (day 10) diary bob 7
           = Inr (map (\<lambda>r. \<lparr>mp_date = je_created_at r, mp_mood = je_mood r\<rparr>) rows))
   \<and> get_mood_history (day 10) diary bob 7
       = Inr [\<lparr>mp_date = day 5, mp_mood = Some ''glad''\<rparr>]
   \<and> \<not> (\<bar>1000000000 :: int\<bar> \<le> 999999999)
   \<and> get_mood_history (day 10) diary alice 1000000000 = Inl OverflowError
   \<and> \<not> (0 \<le> day 10 - 11 * us_per_day)
   \<and> get_mood_history (day 10) diary alice 11 = Inl OverflowError"
proof -
  have h: "\<bar>7 :: int\<bar> \<le> 999999999 \<and> day 3 = day 10 - 7 * us_per_day \<and> 0 \<le> day 3
      \<and> day 3 < datetime_end"
    by (simp add: day_def us_per_day_def datetime_end_def)
  note t = get_mood_history_from_start [where now = "day 10" and s = diary and user_id = alice]
  from t [where days = 7 and start = "day 3", THEN conjunct1] h
  have 1: "\<exists>rows.
         mset rows
           = mset (filter (\<lambda>r. je_user_id r = alice \<and> day 3 \<le> je_created_at r
                               \<and> je_mood r \<noteq> None)
                     (journal_entries (store diary)))
       \<and> sorted (map je_created_at rows)
       \<and> get_mood_history (day 10) diary alice 7
           = Inr (map (\<lambda>r. \<lparr>mp_date = je_created_at r, mp_mood = je_mood r\<rparr>) rows)"
    by blast
  have 2: "get_mood_history (day 10) diary alice 7
       = Inr [\<lparr>mp_date = day 3, mp_mood = Some ''calm''\<rparr>,
              \<lparr>mp_date = day 8, mp_mood = Some ''glad''\<rparr>,
              \<lparr>mp_date = day 12, mp_mood = Some ''calm''\<rparr>]"
    by (simp add: get_mood_history_def start_date_cases order_by_asc_def diary_def
        session_of_def entry_def alice_def bob_def day_def us_per_day_def datetime_end_def)
  have nb: "\<forall>r\<in>set (journal_entries (store diary)).
              je_user_id r = bob \<longrightarrow> je_created_at r \<le> day 10"
    by (simp add: diary_def session_of_def entry_def alice_def bob_def day_def us_per_day_def)
  from get_mood_history_from_start [where now = "day 10" and s = diary and user_id = bob
      and days = 7 and start = "day 3", THEN conjunct1, THEN mp, OF h]
  obtain rows where
    rb: "get_mood_history (day 10) diary bob 7
           = Inr (map (\<lambda>r. \<lparr>mp_date = je_created_at r, mp_mood = je_mood r\<rparr>) rows)"
    and wb: "(\<forall>r\<in>set (journal_entries (store diary)).
                 je_user_id r = bob \<longrightarrow> je_created_at r \<le> day 10)
              \<longrightarrow> mset rows
                    = mset (filter (\<lambda>r. je_user_id r = bob \<and> day 3 \<le> je_created_at r
                                        \<and> je_created_at r \<le> day 10 \<and> je_mood r \<noteq> None)
                              (journal_entries (store diary)))"
    by blast
  from wb nb rb
  have 7: "\<exists>rows.
         mset rows
           = mset (filter (\<lambda>r. je_user_id r = bob \<and> day 3 \<le> je_created_at r
                               \<and> je_created_at r \<le> day 10 \<and> je_mood r \<noteq> None)
                     (journal_entries (store diary)))
       \<and> get_mood_history (day 10) diary bob 7
           = Inr (map (\<lambda>r. \<lparr>mp_date = je_created_at r, mp_mood = je_mood r\<rparr>) rows)"
    by blast
  have 8: "get_mood_history (day 10) diary bob 7
       = Inr [\<lparr>mp_date = day 5, mp_mood = Some ''glad''\<rparr>]"
    by (simp add: get_mood_history_def start_date_cases order_by_asc_def diary_def
        session_of_def entry_def alice_def bob_def day_def us_per_day_def datetime_end_def)
  have 3: "\<not> (\<bar>1000000000 :: int\<bar> \<le> 999999999)" by simp
  have 4: "\<not> (0 \<le> day 10 - 11 * us_per_day)" by (simp add: day_def us_per_day_def)
  from t [where days = 1000000000, THEN conjunct2] 3
  have 5: "get_mood_history (day 10) diary alice 1000000000 = Inl OverflowError" by blast
  from t [where days = 11, THEN conjunct2] 4
  have 6: "get_mood_history (day 10) diary alice 11 = Inl OverflowError" by blast
  show ?thesis using h 1 2 3 4 5 6 7 8 by blast
qed

end
